theory Spec2Isabelle
  imports Complex_Main
begin

section \<open>Crawl orchestration of llm-codes: start, status stream and seed endpoints\<close>

text \<open>
  The three route handlers of \<^verbatim>\<open>src/app/api/crawl\<close> are embedded as pure functions
  over an explicit store, an explicit clock and an explicit script of what the remote
  provider answers. Logging (\<^verbatim>\<open>console.*\<close>) has no effect on any value below and
  is left out.
\<close>

subsection \<open>Constants (\<^verbatim>\<open>PROCESSING_CONFIG\<close> and the locals of the status route)\<close>

definition MIN_CONTENT_LENGTH :: nat where
  "MIN_CONTENT_LENGTH = 200"

definition MAX_ALLOWED_URLS :: nat where
  "MAX_ALLOWED_URLS = 2000"

definition pollInterval :: nat where
  "pollInterval = 2000"

definition maxPollingTime :: nat where
  "maxPollingTime = 480000"

definition maxConsecutiveErrors :: nat where
  "maxConsecutiveErrors = 5"

definition maxStallTime :: nat where
  "maxStallTime = 60000"

definition absoluteMaxStallTime :: nat where
  "absoluteMaxStallTime = 120000"

definition minProgressRate :: rat where
  "minProgressRate = 1 / 60000"

subsection \<open>JavaScript truthiness and defaults\<close>

text \<open>
  An optional JSON field is an \<open>option\<close>: \<open>None\<close> is \<^verbatim>\<open>undefined\<close> or
  \<^verbatim>\<open>null\<close>. A string is truthy when it is present and not empty, a number when it
  is present and not zero.
\<close>

definition truthy_str :: "string option \<Rightarrow> bool" where
  "truthy_str s = (case s of None \<Rightarrow> False | Some v \<Rightarrow> v \<noteq> [])"

definition truthy_num :: "nat option \<Rightarrow> bool" where
  "truthy_num n = (case n of None \<Rightarrow> False | Some v \<Rightarrow> v \<noteq> 0)"

definition or0 :: "nat option \<Rightarrow> nat" where
  "or0 n = (case n of None \<Rightarrow> 0 | Some v \<Rightarrow> v)"

definition or_empty :: "string option \<Rightarrow> string" where
  "or_empty s = (case s of None \<Rightarrow> [] | Some v \<Rightarrow> v)"

definition digit_char :: "nat \<Rightarrow> char" where
  "digit_char d = (''0123456789'' ! d)"

fun show_nat :: "nat \<Rightarrow> string" where
  "show_nat n = (if n < 10 then [digit_char n] else show_nat (n div 10) @ [digit_char (n mod 10)])"

declare show_nat.simps [simp del]

subsection \<open>Data model\<close>

record page =
  sourceURL :: "string option"
  markdown :: "string option"

record crawlJob =
  j_id :: string
  j_url :: string
  j_limit :: nat
  j_status :: string
  j_startedAt :: nat
  j_totalPages :: nat
  j_completedPages :: nat
  j_failedPages :: nat
  j_creditsUsed :: nat
  j_crawledUrls :: "string list option"
  j_next :: "string option"
  j_expiresAt :: "string option"
  j_lastPageNumber :: "nat option"
  j_completedAt :: "nat option"
  j_failedAt :: "nat option"

subsection \<open>The cache service\<close>

text \<open>
  Modelled from the spec: \<^verbatim>\<open>cacheService\<close> (\<^verbatim>\<open>src/lib/cache/redis-cache.ts\<close>) is not
  among the source files. Sections 4.1, 4.4 and 4.5 of the spec give its contract: a
  key-addressed page cache (\<open>get\<close>, \<open>set\<close>, \<open>multiGet\<close> returning, for every
  requested key, its value or absent), a job store with whole-object create and
  read-merge-write update, result pages keyed by job id and page number, and a manifest
  store where \<open>put\<close> overwrites and \<open>get\<close> returns the list or absent. Store failures
  never reach the caller. Expiry is outside the time span of one request and is not
  modelled.
\<close>

record store =
  cache :: "string \<rightharpoonup> string"
  jobs :: "string \<rightharpoonup> crawlJob"
  results :: "(string \<times> nat) \<rightharpoonup> page list"
  urlMap :: "string \<rightharpoonup> string list"

definition cache_get :: "store \<Rightarrow> string \<Rightarrow> string option" where
  "cache_get s k = cache s k"

definition cache_set :: "store \<Rightarrow> string \<Rightarrow> string \<Rightarrow> store" where
  "cache_set s k v = s\<lparr>cache := (cache s)(k \<mapsto> v)\<rparr>"

text \<open>
  \<^verbatim>\<open>mget(keys)\<close> answers with a JavaScript \<^verbatim>\<open>Map\<close>: \<open>Some (Some v)\<close> is a key
  mapped to its value, \<open>Some None\<close> a key mapped to \<^verbatim>\<open>null\<close>, and \<open>None\<close> a key
  the \<^verbatim>\<open>Map\<close> does not hold (\<^verbatim>\<open>undefined\<close>).
\<close>

definition mget :: "store \<Rightarrow> string list \<Rightarrow> string \<Rightarrow> string option option" where
  "mget s ks = (\<lambda>k. if k \<in> set ks then Some (cache s k) else None)"

definition getCrawlUrlMap :: "store \<Rightarrow> string \<Rightarrow> string list option" where
  "getCrawlUrlMap s u = urlMap s u"

definition setCrawlUrlMap :: "store \<Rightarrow> string \<Rightarrow> string list \<Rightarrow> store" where
  "setCrawlUrlMap s u us = s\<lparr>urlMap := (urlMap s)(u \<mapsto> us)\<rparr>"

definition getCrawlJob :: "store \<Rightarrow> string \<Rightarrow> crawlJob option" where
  "getCrawlJob s i = jobs s i"

definition setCrawlJob :: "store \<Rightarrow> string \<Rightarrow> crawlJob \<Rightarrow> store" where
  "setCrawlJob s i j = s\<lparr>jobs := (jobs s)(i \<mapsto> j)\<rparr>"

definition updateCrawlJobStatus :: "store \<Rightarrow> string \<Rightarrow> (crawlJob \<Rightarrow> crawlJob) \<Rightarrow> store" where
  "updateCrawlJobStatus s i upd =
     (case jobs s i of
        None \<Rightarrow> s
      | Some j \<Rightarrow> s\<lparr>jobs := (jobs s)(i \<mapsto> upd j)\<rparr>)"

definition setCrawlResults :: "store \<Rightarrow> string \<Rightarrow> nat \<Rightarrow> page list \<Rightarrow> store" where
  "setCrawlResults s i n ps = s\<lparr>results := (results s)((i, n) \<mapsto> ps)\<rparr>"

subsection \<open>Crawl start: \<^verbatim>\<open>POST /api/crawl/start\<close> (\<^verbatim>\<open>src/unnamed/part_000\<close>)\<close>

text \<open>
  The request body after destructuring (\<^verbatim>\<open>limit = 10\<close>, \<^verbatim>\<open>force = false\<close>), what
  the handler reads from its environment, and what the remote provider answers should it
  be called. \<^verbatim>\<open>isValidDocumentationUrl\<close> (\<^verbatim>\<open>src/utils/url-utils.ts\<close>) and the
  circuit breaker are not among the source files: the former is a parameter, the latter
  is the boolean its \<^verbatim>\<open>canRequest()\<close> returns and the list of
  \<^verbatim>\<open>recordSuccess\<close>/\<^verbatim>\<open>recordFailure\<close> calls made on it.
\<close>

record startBody =
  b_url :: string
  b_limit :: "nat option"
  b_force :: bool

record startData =
  sd_success :: bool
  sd_id :: "string option"
  sd_creditsUsed :: "nat option"
  sd_error :: "string option"

record errorData =
  ed_error :: "string option"
  ed_message :: "string option"
  ed_details :: "string option"

datatype errorBody =
    Unreadable
  | Text string "errorData option"

datatype startFetch =
    FetchOk startData
  | FetchStatus nat errorBody
  | FetchThrows "string option"

datatype breakerCall = RecordSuccess | RecordFailure

record startEnv =
  e_apiKey :: "string option"
  e_canRequest :: bool
  e_uuid :: string
  e_now :: nat
  e_fetch :: startFetch

datatype startResponse =
    StartError (r_status: nat) (r_error: string) (r_details: "string option")
      (r_circuitBreaker: "string option")
  | StartOk (r_jobId: string) (r_url: string) (r_limit: nat) (r_cached: "bool option")

record startOutcome =
  o_response :: startResponse
  o_store :: store
  o_providerCalls :: nat
  o_breaker :: "breakerCall list"

definition reply :: "startResponse \<Rightarrow> store \<Rightarrow> startOutcome" where
  "reply r s = \<lparr>o_response = r, o_store = s, o_providerCalls = 0, o_breaker = []\<rparr>"

definition body_limit :: "startBody \<Rightarrow> nat" where
  "body_limit body = (case b_limit body of None \<Rightarrow> 10 | Some l \<Rightarrow> l)"

definition enforcedLimit :: "startBody \<Rightarrow> nat" where
  "enforcedLimit body = min (body_limit body) MAX_ALLOWED_URLS"

definition cache_hit_job :: "startEnv \<Rightarrow> startBody \<Rightarrow> string list \<Rightarrow> crawlJob" where
  "cache_hit_job env body cachedUrls =
     \<lparr>j_id = e_uuid env, j_url = b_url body, j_limit = enforcedLimit body,
      j_status = ''cache_hit'', j_startedAt = e_now env,
      j_totalPages = length cachedUrls, j_completedPages = length cachedUrls,
      j_failedPages = 0, j_creditsUsed = 0, j_crawledUrls = Some cachedUrls,
      j_next = None, j_expiresAt = None, j_lastPageNumber = None,
      j_completedAt = None, j_failedAt = None\<rparr>"

text \<open>Lines 48-83: the cache-first check. \<open>None\<close> means the handler falls through.\<close>

definition cache_first :: "startEnv \<Rightarrow> startBody \<Rightarrow> store \<Rightarrow> startOutcome option" where
  "cache_first env body s =
     (if \<not> b_force body then
        (case getCrawlUrlMap s (b_url body) of
           None \<Rightarrow> None
         | Some cachedUrls \<Rightarrow>
             if length cachedUrls > 0 then
               (let sample = take (min 3 (length cachedUrls)) cachedUrls;
                    cached = mget s sample;
                    allCached = list_all (\<lambda>u. cached u \<noteq> Some None) sample
                in if allCached then
                     Some (reply (StartOk (e_uuid env) (b_url body) (enforcedLimit body) (Some True))
                            (setCrawlJob s (e_uuid env) (cache_hit_job env body cachedUrls)))
                   else None)
             else None)
      else None)"

definition crawling_job :: "startEnv \<Rightarrow> startBody \<Rightarrow> startData \<Rightarrow> string \<Rightarrow> crawlJob" where
  "crawling_job env body d i =
     \<lparr>j_id = i, j_url = b_url body, j_limit = body_limit body,
      j_status = ''crawling'', j_startedAt = e_now env,
      j_totalPages = 0, j_completedPages = 0, j_failedPages = 0,
      j_creditsUsed = or0 (sd_creditsUsed d), j_crawledUrls = None,
      j_next = None, j_expiresAt = None, j_lastPageNumber = None,
      j_completedAt = None, j_failedAt = None\<rparr>"

text \<open>Lines 146-167: the message and details read from an error response's body.\<close>

definition error_of_body :: "nat \<Rightarrow> errorBody \<Rightarrow> string \<times> string option" where
  "error_of_body code eb =
     (case eb of
        Unreadable \<Rightarrow> (''Firecrawl API error ('' @ show_nat code @ '')'', None)
      | Text errorText parsed \<Rightarrow>
          if errorText = [] then (''Firecrawl API error ('' @ show_nat code @ '')'', None)
          else (case parsed of
                  None \<Rightarrow> (''Firecrawl API error: '' @ errorText, None)
                | Some ed \<Rightarrow>
                    (if truthy_str (ed_error ed) then or_empty (ed_error ed)
                     else if truthy_str (ed_message ed) then or_empty (ed_message ed)
                     else errorText,
                     if truthy_str (ed_details ed) then ed_details ed else None)))"

definition status_message :: "nat \<Rightarrow> string \<Rightarrow> string" where
  "status_message code msg =
     (if code = 429 then ''Rate limit exceeded. Please try again in a few moments.''
      else if code = 403 then ''Access forbidden. The API key might be invalid.''
      else if code \<ge> 500 then ''Server error. Please try again later.''
      else msg)"

text \<open>Lines 85-197: the one call to the remote provider and the handling of its answer.\<close>

definition start_remote :: "startEnv \<Rightarrow> startBody \<Rightarrow> store \<Rightarrow> startOutcome" where
  "start_remote env body s =
     (case e_fetch env of
        FetchOk d \<Rightarrow>
          (case sd_id d of
             Some i \<Rightarrow>
               if sd_success d \<and> i \<noteq> [] then
                 \<lparr>o_response = StartOk i (b_url body) (body_limit body) None,
                  o_store = setCrawlJob s i (crawling_job env body d i),
                  o_providerCalls = 1, o_breaker = [RecordSuccess]\<rparr>
               else
                 \<lparr>o_response = StartError 500
                    (''Failed to start crawl: '' @
                       (if truthy_str (sd_error d) then or_empty (sd_error d)
                        else ''No job ID returned from crawl API'')) None None,
                  o_store = s, o_providerCalls = 1, o_breaker = []\<rparr>
           | None \<Rightarrow>
               \<lparr>o_response = StartError 500
                  (''Failed to start crawl: '' @
                     (if truthy_str (sd_error d) then or_empty (sd_error d)
                      else ''No job ID returned from crawl API'')) None None,
                o_store = s, o_providerCalls = 1, o_breaker = []\<rparr>)
      | FetchStatus code eb \<Rightarrow>
          \<lparr>o_response = StartError code (status_message code (fst (error_of_body code eb)))
             (snd (error_of_body code eb)) None,
           o_store = s, o_providerCalls = 1,
           o_breaker = (if code \<ge> 500 then [RecordFailure] else [])\<rparr>
      | FetchThrows msg \<Rightarrow>
          \<lparr>o_response = StartError 500
             (''Network error: '' @ (case msg of None \<Rightarrow> ''Unknown error occurred'' | Some m \<Rightarrow> m))
             None None,
           o_store = s, o_providerCalls = 1, o_breaker = [RecordFailure]\<rparr>)"

definition POST_start :: "(string \<Rightarrow> bool) \<Rightarrow> startEnv \<Rightarrow> startBody \<Rightarrow> store \<Rightarrow> startOutcome" where
  "POST_start isValidDocumentationUrl env body s =
     (if \<not> truthy_str (e_apiKey env) then
        reply (StartError 500 ''Server configuration error'' None None) s
      else if \<not> isValidDocumentationUrl (b_url body) then
        reply (StartError 400 ''Invalid URL. Must be from an allowed documentation domain'' None None) s
      else if \<not> e_canRequest env then
        reply (StartError 503 ''Documentation service is temporarily unavailable''
                 (Some ''The service is experiencing high failure rates. Please try again in a minute.'')
                 (Some ''open'')) s
      else (case cache_first env body s of
              Some out \<Rightarrow> out
            | None \<Rightarrow> start_remote env body s))"

subsection \<open>Crawl status stream: \<^verbatim>\<open>GET /api/crawl/[jobId]/status\<close>\<close>

text \<open>
  The body the provider returns for a status poll (\<^verbatim>\<open>data\<close>), and what one poll
  can bring: a 2xx response with that body, a response with another status code, or an
  exception thrown inside the \<^verbatim>\<open>try\<close> block (carrying the message of the
  \<^verbatim>\<open>Error\<close>, if it is one).
\<close>

record crawlData =
  d_status :: string
  d_completed :: "nat option"
  d_total :: "nat option"
  d_creditsUsed :: "nat option"
  d_expiresAt :: "string option"
  d_next :: "string option"
  d_data :: "page list option"

datatype pollResult =
    Ok crawlData
  | HttpError nat
  | Throws "string option"

text \<open>
  Time is read by \<^verbatim>\<open>Date.now()\<close>; the model carries the clock in the state, in
  milliseconds, and each poll of the script says how long its awaited operations took:
  \<open>latency\<close> from the loop's check to the response being in hand (lines 90-104),
  \<open>proc\<close> for the store and cache operations between the reading of line 111 and the
  readings of lines 197 and 211, and \<open>overrun\<close> for how late the timer of line 348
  fires beyond the requested delay.
\<close>

record poll =
  latency :: nat
  proc :: nat
  overrun :: nat
  result :: pollResult

datatype message =
    StatusMsg string
  | ProgressMsg nat nat "nat option"
  | UrlComplete string string bool
  | ErrorMsg string
  | CompleteMsg nat nat

text \<open>
  The local variables of \<^verbatim>\<open>start(controller)\<close>, the clock, the store, the events
  enqueued so far and the status URLs fetched from the provider so far. \<open>sentUrls\<close> is
  the JavaScript \<^verbatim>\<open>Set\<close> in insertion order; \<open>jobNext\<close> is \<^verbatim>\<open>jobMetadata.next\<close>.
\<close>

record stream =
  isComplete :: bool
  lastPageNumber :: nat
  consecutiveErrors :: nat
  lastProgressUpdate :: nat
  lastCompletedCount :: nat
  sentUrls :: "string list"
  jobNext :: "string option"
  startTime :: nat
  now :: nat
  st_store :: store
  events :: "message list"
  polled :: "string list"

definition emit :: "message \<Rightarrow> stream \<Rightarrow> stream" where
  "emit m st = st\<lparr>events := events st @ [m]\<rparr>"

text \<open>Lines 152-187: one page of \<^verbatim>\<open>data.data\<close>.\<close>

definition process_page :: "page \<Rightarrow> stream \<Rightarrow> stream" where
  "process_page pg st =
     (case sourceURL pg of
        None \<Rightarrow> st
      | Some url \<Rightarrow>
          if url \<noteq> [] \<and> url \<notin> set (sentUrls st) then
            (let st1 = st\<lparr>sentUrls := sentUrls st @ [url]\<rparr>;
                 content = or_empty (markdown pg)
             in case cache_get (st_store st1) url of
                  None \<Rightarrow>
                    emit (UrlComplete url content False)
                      (if length content \<ge> MIN_CONTENT_LENGTH
                       then st1\<lparr>st_store := cache_set (st_store st1) url content\<rparr>
                       else st1)
                | Some cachedContent \<Rightarrow>
                    if cachedContent \<noteq> [] then emit (UrlComplete url cachedContent True) st1
                    else
                      emit (UrlComplete url content False)
                        (if length content \<ge> MIN_CONTENT_LENGTH
                         then st1\<lparr>st_store := cache_set (st_store st1) url content\<rparr>
                         else st1))
          else st)"

fun process_pages :: "page list \<Rightarrow> stream \<Rightarrow> stream" where
  "process_pages [] st = st"
| "process_pages (pg # pgs) st = process_pages pgs (process_page pg st)"

text \<open>Lines 116-126: the merge written to the job store on every successful poll.\<close>

definition updatedMetadata :: "crawlData \<Rightarrow> nat \<Rightarrow> crawlJob \<Rightarrow> crawlJob" where
  "updatedMetadata d lpn j =
     j\<lparr>j_status := d_status d,
       j_totalPages := or0 (d_total d),
       j_completedPages := or0 (d_completed d),
       j_creditsUsed := or0 (d_creditsUsed d),
       j_expiresAt := d_expiresAt d,
       j_next := d_next d,
       j_lastPageNumber := Some (case d_data d of None \<Rightarrow> lpn | Some _ \<Rightarrow> lpn + 1)\<rparr>"

text \<open>
  Lines 197-212: the quantities of the completion test, from the time since the last
  progress \<open>tslp\<close> and the total run time. The source divides in floating point; the
  model divides in the rationals, which orders the ratios the same way for any page
  count a crawl can report.
\<close>

definition completionRatio :: "crawlData \<Rightarrow> rat" where
  "completionRatio d =
     (if truthy_num (d_completed d) \<and> truthy_num (d_total d)
      then of_nat (or0 (d_completed d)) / of_nat (or0 (d_total d)) else 0)"

definition progressRate :: "crawlData \<Rightarrow> nat \<Rightarrow> nat \<Rightarrow> rat" where
  "progressRate d lcc tslp =
     (if truthy_num (d_completed d) \<and> tslp > 0
      then (of_nat (or0 (d_completed d)) - of_nat lcc) / of_nat tslp else 0)"

definition isMakingSlowProgress :: "crawlData \<Rightarrow> nat \<Rightarrow> nat \<Rightarrow> bool" where
  "isMakingSlowProgress d lcc tslp =
     (progressRate d lcc tslp < minProgressRate \<and>
      (case d_completed d of None \<Rightarrow> False | Some c \<Rightarrow> c > 10))"

text \<open>Lines 214-221: the completion test.\<close>

definition crawl_complete :: "crawlData \<Rightarrow> nat \<Rightarrow> nat \<Rightarrow> nat \<Rightarrow> bool" where
  "crawl_complete d lcc tslp totalRunTime =
     (d_status d = ''completed'' \<or>
      (d_status d = ''scraping'' \<and> \<not> truthy_str (d_next d) \<and> d_completed d = d_total d) \<or>
      (tslp > maxStallTime \<and> completionRatio d \<ge> 95 / 100 \<and> \<not> truthy_str (d_next d)) \<or>
      (tslp > maxStallTime \<and> completionRatio d \<ge> 80 / 100 \<and> isMakingSlowProgress d lcc tslp) \<or>
      (tslp > absoluteMaxStallTime \<and> completionRatio d \<ge> 5 / 10) \<or>
      totalRunTime > 480000)"

text \<open>Lines 245-263 and 264-278: the two terminal branches of a successful poll.\<close>

definition mark_completed :: "string \<Rightarrow> string \<Rightarrow> crawlData \<Rightarrow> stream \<Rightarrow> stream" where
  "mark_completed jobId jobUrl d st =
     (let st1 = st\<lparr>isComplete := True,
                   st_store := updateCrawlJobStatus (st_store st) jobId
                     (\<lambda>j. j\<lparr>j_status := ''completed'', j_completedAt := Some (now st)\<rparr>)\<rparr>;
          st2 = (if length (sentUrls st1) > 0
                 then st1\<lparr>st_store := setCrawlUrlMap (st_store st1) jobUrl (sentUrls st1)\<rparr>
                 else st1)
      in emit (CompleteMsg (or0 (d_total d)) (or0 (d_creditsUsed d))) st2)"

definition mark_failed :: "string \<Rightarrow> stream \<Rightarrow> stream" where
  "mark_failed jobId st =
     emit (ErrorMsg ''Crawl job failed'')
       (st\<lparr>isComplete := True,
           st_store := updateCrawlJobStatus (st_store st) jobId
             (\<lambda>j. j\<lparr>j_status := ''failed'', j_failedAt := Some (now st)\<rparr>)\<rparr>)"

text \<open>
  Lines 103-283: a poll answered with a 2xx response, block by block. Lines 106-113 reset
  the error counter and record progress; lines 115-144 merge the metadata into the job
  store and emit the status and progress events; lines 146-190 store and process the
  pages; lines 192-278 evaluate the completion test, after \<open>procTime\<close> has passed;
  lines 280-283 remember the cursor.
\<close>

definition record_progress :: "crawlData \<Rightarrow> stream \<Rightarrow> stream" where
  "record_progress d st =
     (let st1 = st\<lparr>consecutiveErrors := 0\<rparr>
      in if truthy_num (d_completed d) \<and> or0 (d_completed d) > lastCompletedCount st1
         then st1\<lparr>lastProgressUpdate := now st1, lastCompletedCount := or0 (d_completed d)\<rparr>
         else st1)"

definition publish_progress :: "string \<Rightarrow> crawlData \<Rightarrow> stream \<Rightarrow> stream" where
  "publish_progress jobId d st =
     emit (ProgressMsg (or0 (d_completed d)) (or0 (d_total d)) (d_creditsUsed d))
       (emit (StatusMsg (d_status d))
          (st\<lparr>st_store := updateCrawlJobStatus (st_store st) jobId
                              (updatedMetadata d (lastPageNumber st))\<rparr>))"

definition process_data :: "string \<Rightarrow> crawlData \<Rightarrow> stream \<Rightarrow> stream" where
  "process_data jobId d st =
     (case d_data d of
        None \<Rightarrow> st
      | Some pages \<Rightarrow>
          (let st1 = process_pages pages
                 (st\<lparr>st_store := setCrawlResults (st_store st) jobId (lastPageNumber st) pages\<rparr>)
           in st1\<lparr>lastPageNumber := lastPageNumber st1 + 1\<rparr>))"

definition check_completion :: "string \<Rightarrow> string \<Rightarrow> crawlData \<Rightarrow> stream \<Rightarrow> stream" where
  "check_completion jobId jobUrl d st =
     (let timeSinceLastProgress = now st - lastProgressUpdate st;
          totalRunTime = now st - startTime st
      in if crawl_complete d (lastCompletedCount st) timeSinceLastProgress totalRunTime
         then mark_completed jobId jobUrl d st
         else if d_status d = ''failed'' then mark_failed jobId st
         else st)"

definition remember_next :: "crawlData \<Rightarrow> stream \<Rightarrow> stream" where
  "remember_next d st = (if truthy_str (d_next d) then st\<lparr>jobNext := d_next d\<rparr> else st)"

definition handle_ok :: "string \<Rightarrow> string \<Rightarrow> crawlData \<Rightarrow> nat \<Rightarrow> stream \<Rightarrow> stream" where
  "handle_ok jobId jobUrl d procTime st =
     (let st1 = process_data jobId d (publish_progress jobId d (record_progress d st));
          st2 = st1\<lparr>now := now st1 + procTime\<rparr>
      in remember_next d (check_completion jobId jobUrl d st2))"

text \<open>Lines 284-314: a poll answered with a status code outside 2xx.\<close>

definition handle_error_status :: "nat \<Rightarrow> stream \<Rightarrow> stream" where
  "handle_error_status code st =
     (if code \<in> {502, 503, 504} then
        (let st1 = st\<lparr>consecutiveErrors := consecutiveErrors st + 1\<rparr>
         in if consecutiveErrors st1 \<ge> maxConsecutiveErrors then
              (emit (ErrorMsg
                 ''Too many consecutive gateway errors. The service may be temporarily unavailable.'')
                 st1)\<lparr>isComplete := True\<rparr>
            else st1)
      else emit (ErrorMsg (''Failed to get crawl status: '' @ show_nat code)) st)"

text \<open>Lines 315-338: an exception caught while polling.\<close>

definition handle_exception :: "string option \<Rightarrow> stream \<Rightarrow> stream" where
  "handle_exception msg st =
     (let st1 = st\<lparr>consecutiveErrors := consecutiveErrors st + 1\<rparr>
      in if consecutiveErrors st1 \<ge> maxConsecutiveErrors then
           (emit (ErrorMsg (''Too many consecutive errors. '' @
                    (case msg of None \<Rightarrow> ''Unknown error'' | Some m \<Rightarrow> m))) st1)
             \<lparr>isComplete := True\<rparr>
         else st1)"

definition FIRECRAWL_API_URL :: string where
  "FIRECRAWL_API_URL = ''https://api.firecrawl.dev/v1''"

definition statusUrl :: "string \<Rightarrow> stream \<Rightarrow> string" where
  "statusUrl jobId st =
     (if truthy_str (jobNext st) then or_empty (jobNext st)
      else FIRECRAWL_API_URL @ ''/crawl/'' @ jobId)"

text \<open>Lines 91-338: the \<^verbatim>\<open>try\<close>/\<^verbatim>\<open>catch\<close> of one loop iteration.\<close>

definition poll_once :: "string \<Rightarrow> string \<Rightarrow> poll \<Rightarrow> stream \<Rightarrow> stream" where
  "poll_once jobId jobUrl p st =
     (let st1 = st\<lparr>polled := polled st @ [statusUrl jobId st], now := now st + latency p\<rparr>
      in case result p of
           Ok d \<Rightarrow> handle_ok jobId jobUrl d (proc p) st1
         | HttpError code \<Rightarrow> handle_error_status code st1
         | Throws msg \<Rightarrow> handle_exception msg st1)"

text \<open>Lines 340-349: the wait before the next poll.\<close>

definition delay :: "stream \<Rightarrow> nat" where
  "delay st =
     (if consecutiveErrors st > 0
      then min (pollInterval * 2 ^ (consecutiveErrors st - 1)) 30000
      else pollInterval)"

definition wait :: "poll \<Rightarrow> stream \<Rightarrow> stream" where
  "wait p st = (if \<not> isComplete st then st\<lparr>now := now st + delay st + overrun p\<rparr> else st)"

definition iteration :: "string \<Rightarrow> string \<Rightarrow> poll \<Rightarrow> stream \<Rightarrow> stream" where
  "iteration jobId jobUrl p st = wait p (poll_once jobId jobUrl p st)"

definition loop_cond :: "stream \<Rightarrow> bool" where
  "loop_cond st = (\<not> isComplete st \<and> now st - startTime st < maxPollingTime)"

text \<open>
  Line 90: the \<^verbatim>\<open>while\<close> loop, run against a script of polls. \<open>None\<close> is a loop
  that would go on after the script ends.
\<close>

fun poll_loop :: "string \<Rightarrow> string \<Rightarrow> poll list \<Rightarrow> stream \<Rightarrow> stream option" where
  "poll_loop jobId jobUrl [] st = (if loop_cond st then None else Some st)"
| "poll_loop jobId jobUrl (p # ps) st =
     (if loop_cond st then poll_loop jobId jobUrl ps (iteration jobId jobUrl p st)
      else Some st)"

text \<open>Lines 352-362: after the loop.\<close>

definition finish :: "stream \<Rightarrow> stream" where
  "finish st =
     (if \<not> isComplete st then emit (ErrorMsg ''Crawl job timed out after 8 minutes'') st
      else st)"

text \<open>Lines 90-362: the loop, then the timeout event, then the stream is closed.\<close>

definition poll_stream :: "string \<Rightarrow> string \<Rightarrow> poll list \<Rightarrow> stream \<Rightarrow> stream option" where
  "poll_stream jobId jobUrl script st = map_option finish (poll_loop jobId jobUrl script st)"

text \<open>Lines 55-71: the state at the start of the stream.\<close>

definition initial :: "store \<Rightarrow> nat \<Rightarrow> crawlJob \<Rightarrow> stream" where
  "initial s t0 jobMetadata =
     \<lparr>isComplete = False, lastPageNumber = 0, consecutiveErrors = 0,
      lastProgressUpdate = t0, lastCompletedCount = 0, sentUrls = [],
      jobNext = j_next jobMetadata, startTime = t0, now = t0, st_store = s,
      events = [], polled = []\<rparr>"

text \<open>Lines 73-88: the fast path of a job created from the cache.\<close>

fun serve_cached :: "string list \<Rightarrow> stream \<Rightarrow> stream" where
  "serve_cached [] st = st"
| "serve_cached (url # urls) st =
     serve_cached urls
       (case cache_get (st_store st) url of
          None \<Rightarrow> st
        | Some content \<Rightarrow>
            if content \<noteq> [] then emit (UrlComplete url content True) st else st)"

definition fast_path :: "string list \<Rightarrow> stream \<Rightarrow> stream" where
  "fast_path crawledUrls st =
     emit (CompleteMsg (length crawledUrls) 0) (serve_cached crawledUrls st)"

text \<open>Lines 54-363: the stream of a job found in the store.\<close>

definition start_stream :: "crawlJob \<Rightarrow> string \<Rightarrow> poll list \<Rightarrow> stream \<Rightarrow> stream option" where
  "start_stream jobMetadata jobId script st =
     (case (if j_status jobMetadata = ''cache_hit'' then j_crawledUrls jobMetadata else None) of
        Some crawledUrls \<Rightarrow> Some (fast_path crawledUrls st)
      | None \<Rightarrow> poll_stream jobId (j_url jobMetadata) script st)"

datatype getResponse =
    Rejected nat message
  | Streamed stream

definition GET :: "string option \<Rightarrow> store \<Rightarrow> nat \<Rightarrow> string \<Rightarrow> poll list \<Rightarrow> getResponse option" where
  "GET apiKey s t0 jobId script =
     (if \<not> truthy_str apiKey then Some (Rejected 500 (ErrorMsg ''Server configuration error''))
      else case getCrawlJob s jobId of
             None \<Rightarrow> Some (Rejected 404 (ErrorMsg ''Job not found''))
           | Some jobMetadata \<Rightarrow>
               map_option Streamed
                 (start_stream jobMetadata jobId script (initial s t0 jobMetadata)))"

subsection \<open>Manifest bootstrap: \<^verbatim>\<open>POST /api/crawl/seed\<close>\<close>

text \<open>
  The body: \<open>sb_url\<close> is \<open>None\<close> when the field is missing or not a string,
  \<open>sb_pageUrls\<close> is \<open>None\<close> when the field is missing or not an array.
\<close>

record seedBody =
  sb_url :: "string option"
  sb_pageUrls :: "string list option"

datatype seedResponse =
    SeedError (se_status: nat) (se_error: string) (se_missingUrls: "string list option")
  | SeedStored (ss_url: string) (ss_stored: nat) (ss_missing: nat)
      (ss_missingUrls: "string list option")

definition POST_seed :: "(string \<Rightarrow> bool) \<Rightarrow> seedBody \<Rightarrow> store \<Rightarrow> seedResponse \<times> store" where
  "POST_seed isValidDocumentationUrl body s =
     (case sb_url body of
        None \<Rightarrow> (SeedError 400 ''Missing required field: url'' None, s)
      | Some url \<Rightarrow>
          if url = [] then (SeedError 400 ''Missing required field: url'' None, s)
          else (case sb_pageUrls body of
                  None \<Rightarrow> (SeedError 400 ''Missing required field: pageUrls (non-empty array)'' None, s)
                | Some pageUrls \<Rightarrow>
                    if length pageUrls = 0 then
                      (SeedError 400 ''Missing required field: pageUrls (non-empty array)'' None, s)
                    else if \<not> isValidDocumentationUrl url then
                      (SeedError 400 ''Invalid URL. Must be from an allowed documentation domain'' None, s)
                    else
                      (let cached = mget s pageUrls;
                           cachedUrls = filter (\<lambda>u. cached u \<noteq> Some None) pageUrls;
                           missingUrls = filter (\<lambda>u. cached u = Some None) pageUrls
                       in if length cachedUrls = 0 then
                            (SeedError 404 ''None of the provided page URLs are cached''
                               (Some missingUrls), s)
                          else
                            (SeedStored url (length cachedUrls) (length missingUrls)
                               (if length missingUrls > 0 then Some missingUrls else None),
                             setCrawlUrlMap s url cachedUrls))))"

subsection \<open>Concrete inputs\<close>

text \<open>
  A validity check that admits one documentation site, a store whose manifest for that
  site lists one page that is cached, and a start request for the site.
\<close>

definition docs_only :: "string \<Rightarrow> bool" where
  "docs_only u = (u = ''https://docs.example.com/'')"

definition warm_store :: store where
  "warm_store =
     \<lparr>cache = [''https://docs.example.com/a'' \<mapsto> ''# A''],
      jobs = Map.empty, results = Map.empty,
      urlMap = [''https://docs.example.com/'' \<mapsto> [''https://docs.example.com/a'']]\<rparr>"

definition start_env :: "bool \<Rightarrow> startEnv" where
  "start_env can =
     \<lparr>e_apiKey = Some ''fc-key'', e_canRequest = can, e_uuid = ''job-1'', e_now = 1000,
      e_fetch = FetchThrows None\<rparr>"

definition start_body :: startBody where
  "start_body = \<lparr>b_url = ''https://docs.example.com/'', b_limit = None, b_force = False\<rparr>"

text \<open>
  A store whose manifest for the site lists four pages, all cached, and a request with
  a page limit.
\<close>

definition warm_store4 :: store where
  "warm_store4 =
     \<lparr>cache = [''https://docs.example.com/a'' \<mapsto> ''# A'',
               ''https://docs.example.com/b'' \<mapsto> ''# B'',
               ''https://docs.example.com/c'' \<mapsto> ''# C'',
               ''https://docs.example.com/d'' \<mapsto> ''# D''],
      jobs = Map.empty, results = Map.empty,
      urlMap = [''https://docs.example.com/'' \<mapsto>
                  [''https://docs.example.com/a'', ''https://docs.example.com/b'',
                   ''https://docs.example.com/c'', ''https://docs.example.com/d'']]\<rparr>"

definition start_body50 :: startBody where
  "start_body50 = \<lparr>b_url = ''https://docs.example.com/'', b_limit = Some 50, b_force = False\<rparr>"

text \<open>What a status request streamed, if it streamed.\<close>

definition streamed :: "getResponse option \<Rightarrow> stream option" where
  "streamed r = (case r of Some (Streamed st) \<Rightarrow> Some st | _ \<Rightarrow> None)"

text \<open>
  A store holding a job created from the cache whose two pages are only half cached, and
  seed requests for the site.
\<close>

definition hit_job :: crawlJob where
  "hit_job =
     \<lparr>j_id = ''job-1'', j_url = ''https://docs.example.com/'', j_limit = 10,
      j_status = ''cache_hit'', j_startedAt = 1000, j_totalPages = 2, j_completedPages = 2,
      j_failedPages = 0, j_creditsUsed = 0,
      j_crawledUrls = Some [''https://docs.example.com/a'', ''https://docs.example.com/b''],
      j_next = None, j_expiresAt = None, j_lastPageNumber = None,
      j_completedAt = None, j_failedAt = None\<rparr>"

definition hit_store :: store where
  "hit_store =
     \<lparr>cache = [''https://docs.example.com/a'' \<mapsto> ''# A''],
      jobs = [''job-1'' \<mapsto> hit_job], results = Map.empty, urlMap = Map.empty\<rparr>"

definition seed_body :: "string list \<Rightarrow> seedBody" where
  "seed_body ps = \<lparr>sb_url = Some ''https://docs.example.com/'', sb_pageUrls = Some ps\<rparr>"

text \<open>
  A store holding a live job, and polls of each kind: answered by a gateway error, by
  another error status, failing with an exception.
\<close>

definition live_job :: crawlJob where
  "live_job =
     \<lparr>j_id = ''job-2'', j_url = ''https://docs.example.com/'', j_limit = 10,
      j_status = ''crawling'', j_startedAt = 1000, j_totalPages = 0, j_completedPages = 0,
      j_failedPages = 0, j_creditsUsed = 0, j_crawledUrls = None,
      j_next = None, j_expiresAt = None, j_lastPageNumber = None,
      j_completedAt = None, j_failedAt = None\<rparr>"

definition live_store :: store where
  "live_store =
     \<lparr>cache = Map.empty, jobs = [''job-2'' \<mapsto> live_job], results = Map.empty,
      urlMap = Map.empty\<rparr>"

definition error_poll :: "nat \<Rightarrow> poll" where
  "error_poll code = \<lparr>latency = 300, proc = 0, overrun = 0, result = HttpError code\<rparr>"

definition failing_poll :: poll where
  "failing_poll = \<lparr>latency = 300, proc = 0, overrun = 0, result = Throws (Some ''fetch failed'')\<rparr>"

definition live_stream :: "nat \<Rightarrow> stream" where
  "live_stream n = (initial live_store 5000 live_job)\<lparr>consecutiveErrors := n\<rparr>"

text \<open>
  The status the job store holds for a job after a stream, whether it holds the job at
  all, and whether a poll did not bring a 2xx response.
\<close>

definition stored_status :: "string \<Rightarrow> stream \<Rightarrow> string option" where
  "stored_status jobId st = map_option j_status (getCrawlJob (st_store st) jobId)"

definition job_known :: "string \<Rightarrow> stream \<Rightarrow> bool" where
  "job_known jobId st = (getCrawlJob (st_store st) jobId \<noteq> None)"

definition poll_failed :: "poll \<Rightarrow> bool" where
  "poll_failed p = (case result p of Ok d \<Rightarrow> False | HttpError code \<Rightarrow> True | Throws msg \<Rightarrow> True)"

text \<open>
  Whether every page a poll brings carries content of at least
  \<open>MIN_CONTENT_LENGTH\<close> characters, whether every URL of the seen-set is in the
  cache, and what the store holds after a stream: the manifest of a start URL and the
  cached content of a page.
\<close>

definition long_pages :: "poll \<Rightarrow> bool" where
  "long_pages p =
     (case result p of
        Ok d \<Rightarrow>
          (case d_data d of
             None \<Rightarrow> True
           | Some pgs \<Rightarrow> list_all (\<lambda>pg. MIN_CONTENT_LENGTH \<le> length (or_empty (markdown pg))) pgs)
      | HttpError code \<Rightarrow> True
      | Throws msg \<Rightarrow> True)"

definition all_cached :: "stream \<Rightarrow> bool" where
  "all_cached st = list_all (\<lambda>u. cache_get (st_store st) u \<noteq> None) (sentUrls st)"

definition stored_manifest :: "string \<Rightarrow> stream \<Rightarrow> string list option" where
  "stored_manifest startUrl st = getCrawlUrlMap (st_store st) startUrl"

definition stored_page :: "string \<Rightarrow> stream \<Rightarrow> string option" where
  "stored_page url st = cache_get (st_store st) url"

text \<open>
  A poll that reports the crawl completed and brings one page, with the given content.
\<close>

definition completed_poll :: "string \<Rightarrow> poll" where
  "completed_poll content =
     \<lparr>latency = 300, proc = 20, overrun = 0,
      result = Ok \<lparr>d_status = ''completed'', d_completed = Some 1, d_total = Some 1,
                    d_creditsUsed = Some 1, d_expiresAt = None, d_next = None,
                    d_data = Some [\<lparr>sourceURL = Some ''https://docs.example.com/a'',
                                     markdown = Some content\<rparr>]\<rparr>\<rparr>"

definition long_content :: string where
  "long_content = replicate 200 CHR ''x''"

text \<open>
  A poll, answered after the given latency, in which the provider is scraping and
  reports the given counts, no cursor and no pages.
\<close>

definition scraping_poll :: "nat \<Rightarrow> nat \<Rightarrow> nat \<Rightarrow> poll" where
  "scraping_poll lat c t =
     \<lparr>latency = lat, proc = 0, overrun = 0,
      result = Ok \<lparr>d_status = ''scraping'', d_completed = Some c, d_total = Some t,
                    d_creditsUsed = Some c, d_expiresAt = None, d_next = None,
                    d_data = None\<rparr>\<rparr>"

text \<open>
  The stream of the live job after three polls, each answered after 20 seconds with 96
  of 100 pages completed.
\<close>

definition stalled_stream :: stream where
  "stalled_stream =
     iteration ''job-2'' ''https://docs.example.com/'' (scraping_poll 20000 96 100)
       (iteration ''job-2'' ''https://docs.example.com/'' (scraping_poll 20000 96 100)
          (iteration ''job-2'' ''https://docs.example.com/'' (scraping_poll 20000 96 100)
             (initial live_store 5000 live_job)))"

section \<open>Verified properties\<close>

subsection \<open>Crawl start\<close>

lemma sample_cached:
  assumes "\<forall>u \<in> set (take 3 us). cache_get s u \<noteq> None"
  shows "list_all (\<lambda>u. mget s (take (min 3 (length us)) us) u \<noteq> Some None)
           (take (min 3 (length us)) us)"
  using assms by (auto simp: list_all_iff mget_def cache_get_def min_def)

lemma POST_start_cache_hit:
  assumes "truthy_str (e_apiKey env)" and "isValid (b_url body)" and "e_canRequest env"
    and "\<not> b_force body" and "getCrawlUrlMap s (b_url body) = Some us" and "us \<noteq> []"
    and "\<forall>u \<in> set (take 3 us). cache_get s u \<noteq> None"
  shows "POST_start isValid env body s =
           reply (StartOk (e_uuid env) (b_url body) (enforcedLimit body) (Some True))
             (setCrawlJob s (e_uuid env) (cache_hit_job env body us))"
  using assms(1-6) sample_cached[OF assms(7)]
  by (simp add: POST_start_def cache_first_def Let_def)

lemma POST_start_breaker_open:
  assumes "truthy_str (e_apiKey env)" and "isValid (b_url body)" and "\<not> e_canRequest env"
  shows "POST_start isValid env body s =
           reply (StartError 503 ''Documentation service is temporarily unavailable''
                    (Some ''The service is experiencing high failure rates. Please try again in a minute.'')
                    (Some ''open'')) s"
  using assms by (simp add: POST_start_def)

text \<open>
  C1, as amended. A crawl-start request with a valid documentation URL and force not
  set, received while the provider API key is configured and the circuit breaker lets
  requests through, whose start URL has a non-empty manifest with every sampled URL (the
  first \<open>min 3 (length us)\<close> entries) still in the cache, makes no call to the remote
  provider and answers success with a new job, stored under the fresh id, whose status is
  \<open>cache_hit\<close>, whose \<open>creditsUsed\<close> is 0 and whose \<open>crawledUrls\<close> is the whole
  manifest.
\<close>

theorem C1_cache_first_start:
  assumes "truthy_str (e_apiKey env)" and "isValid (b_url body)" and "e_canRequest env"
    and "\<not> b_force body" and "getCrawlUrlMap s (b_url body) = Some us" and "us \<noteq> []"
    and "\<forall>u \<in> set (take 3 us). cache_get s u \<noteq> None"
  shows "o_providerCalls (POST_start isValid env body s) = 0
       \<and> o_response (POST_start isValid env body s)
           = StartOk (e_uuid env) (b_url body) (enforcedLimit body) (Some True)
       \<and> map_option j_status (getCrawlJob (o_store (POST_start isValid env body s)) (e_uuid env))
           = Some ''cache_hit''
       \<and> map_option j_creditsUsed (getCrawlJob (o_store (POST_start isValid env body s)) (e_uuid env))
           = Some 0
       \<and> map_option j_crawledUrls (getCrawlJob (o_store (POST_start isValid env body s)) (e_uuid env))
           = Some (Some us)"
proof -
  have "POST_start isValid env body s =
           reply (StartOk (e_uuid env) (b_url body) (enforcedLimit body) (Some True))
             (setCrawlJob s (e_uuid env) (cache_hit_job env body us))"
    using assms by (rule POST_start_cache_hit)
  then show ?thesis
    by (simp add: reply_def setCrawlJob_def getCrawlJob_def cache_hit_job_def)
qed

theorem C1_cache_first_start_witness:
  "o_providerCalls (POST_start docs_only (start_env True) start_body warm_store) = 0
   \<and> o_response (POST_start docs_only (start_env True) start_body warm_store)
       = StartOk ''job-1'' ''https://docs.example.com/'' 10 (Some True)
   \<and> map_option j_status
        (getCrawlJob (o_store (POST_start docs_only (start_env True) start_body warm_store)) ''job-1'')
       = Some ''cache_hit''
   \<and> map_option j_creditsUsed
        (getCrawlJob (o_store (POST_start docs_only (start_env True) start_body warm_store)) ''job-1'')
       = Some 0
   \<and> map_option j_crawledUrls
        (getCrawlJob (o_store (POST_start docs_only (start_env True) start_body warm_store)) ''job-1'')
       = Some (Some [''https://docs.example.com/a''])"
  using C1_cache_first_start[of "start_env True" docs_only start_body warm_store
      "[''https://docs.example.com/a'']"]
  by (simp add: start_env_def docs_only_def start_body_def warm_store_def truthy_str_def
      getCrawlUrlMap_def cache_get_def enforcedLimit_def body_limit_def MAX_ALLOWED_URLS_def)

text \<open>
  C1 as stated fails: with the same valid request, force unset and a warm manifest, the
  handler answers 503 and creates no job when the circuit breaker refuses requests.
\<close>

theorem C1_breaker_open_counterexample:
  "r_status (o_response (POST_start docs_only (start_env False) start_body warm_store)) = 503
   \<and> getCrawlJob (o_store (POST_start docs_only (start_env False) start_body warm_store))
       ''job-1'' = None"
  by (simp add: POST_start_def start_env_def docs_only_def start_body_def warm_store_def
      truthy_str_def reply_def getCrawlJob_def)

text \<open>
  C6, as amended. For a crawl-start request with a valid URL and the API key configured,
  the circuit breaker is consulted before the URL manifest store. When it refuses
  requests the endpoint answers 503 without touching the store or calling the provider,
  whatever the manifest holds. When it lets requests through and force is not set, a warm
  manifest (non-empty, every sampled URL cached) gives a synthetic \<open>cache_hit\<close> job
  with zero provider calls and nothing recorded on the breaker.
\<close>

theorem C6_breaker_gates_first:
  assumes "truthy_str (e_apiKey env)" and "isValid (b_url body)"
  shows "(\<not> e_canRequest env \<longrightarrow>
            o_response (POST_start isValid env body s)
              = StartError 503 ''Documentation service is temporarily unavailable''
                  (Some ''The service is experiencing high failure rates. Please try again in a minute.'')
                  (Some ''open'')
          \<and> o_store (POST_start isValid env body s) = s
          \<and> o_providerCalls (POST_start isValid env body s) = 0)
       \<and> (e_canRequest env \<and> \<not> b_force body \<and> getCrawlUrlMap s (b_url body) = Some us \<and> us \<noteq> []
            \<and> (\<forall>u \<in> set (take 3 us). cache_get s u \<noteq> None) \<longrightarrow>
            o_providerCalls (POST_start isValid env body s) = 0
          \<and> o_breaker (POST_start isValid env body s) = []
          \<and> map_option j_status (getCrawlJob (o_store (POST_start isValid env body s)) (e_uuid env))
              = Some ''cache_hit'')"
proof (intro conjI impI)
  assume "\<not> e_canRequest env"
  then have *: "POST_start isValid env body s =
           reply (StartError 503 ''Documentation service is temporarily unavailable''
                    (Some ''The service is experiencing high failure rates. Please try again in a minute.'')
                    (Some ''open'')) s"
    using assms by (simp add: POST_start_breaker_open)
  show "o_response (POST_start isValid env body s)
              = StartError 503 ''Documentation service is temporarily unavailable''
                  (Some ''The service is experiencing high failure rates. Please try again in a minute.'')
                  (Some ''open'')"
    unfolding * by (simp add: reply_def)
  show "o_store (POST_start isValid env body s) = s"
    unfolding * by (simp add: reply_def)
  show "o_providerCalls (POST_start isValid env body s) = 0"
    unfolding * by (simp add: reply_def)
next
  assume h: "e_canRequest env \<and> \<not> b_force body \<and> getCrawlUrlMap s (b_url body) = Some us \<and> us \<noteq> []
            \<and> (\<forall>u \<in> set (take 3 us). cache_get s u \<noteq> None)"
  have *: "POST_start isValid env body s =
           reply (StartOk (e_uuid env) (b_url body) (enforcedLimit body) (Some True))
             (setCrawlJob s (e_uuid env) (cache_hit_job env body us))"
    using assms h by (intro POST_start_cache_hit) simp_all
  show "o_providerCalls (POST_start isValid env body s) = 0"
    unfolding * by (simp add: reply_def)
  show "o_breaker (POST_start isValid env body s) = []"
    unfolding * by (simp add: reply_def)
  show "map_option j_status (getCrawlJob (o_store (POST_start isValid env body s)) (e_uuid env))
              = Some ''cache_hit''"
    unfolding * by (simp add: reply_def setCrawlJob_def getCrawlJob_def cache_hit_job_def)
qed

theorem C6_breaker_gates_first_witness:
  "o_response (POST_start docs_only (start_env False) start_body50 warm_store)
      = StartError 503 ''Documentation service is temporarily unavailable''
          (Some ''The service is experiencing high failure rates. Please try again in a minute.'')
          (Some ''open'')
   \<and> o_store (POST_start docs_only (start_env False) start_body50 warm_store) = warm_store
   \<and> o_providerCalls (POST_start docs_only (start_env False) start_body50 warm_store) = 0
   \<and> o_providerCalls (POST_start docs_only (start_env True) start_body50 warm_store4) = 0
   \<and> o_breaker (POST_start docs_only (start_env True) start_body50 warm_store4) = []
   \<and> map_option j_status
        (getCrawlJob (o_store (POST_start docs_only (start_env True) start_body50 warm_store4)) ''job-1'')
       = Some ''cache_hit''"
  using C6_breaker_gates_first[of "start_env False" docs_only start_body50 warm_store "[]"]
    C6_breaker_gates_first[of "start_env True" docs_only start_body50 warm_store4
      "[''https://docs.example.com/a'', ''https://docs.example.com/b'',
        ''https://docs.example.com/c'', ''https://docs.example.com/d'']"]
  by (simp add: start_env_def docs_only_def start_body50_def warm_store4_def truthy_str_def
      getCrawlUrlMap_def cache_get_def)

text \<open>
  C6 as stated fails: a request whose manifest is warm gets no \<open>cache_hit\<close> job when
  the breaker is open; the answer is 503 and the job store stays empty.
\<close>

theorem C6_warm_manifest_breaker_open_counterexample:
  "o_response (POST_start docs_only (start_env False) start_body50 warm_store4)
      = StartError 503 ''Documentation service is temporarily unavailable''
          (Some ''The service is experiencing high failure rates. Please try again in a minute.'')
          (Some ''open'')
   \<and> jobs (o_store (POST_start docs_only (start_env False) start_body50 warm_store4)) = Map.empty"
  by (simp add: POST_start_def start_env_def docs_only_def start_body50_def warm_store4_def
      truthy_str_def reply_def)

subsection \<open>The fast path of the status stream\<close>

lemma serve_cached_events:
  "events (serve_cached us st) =
     events st @ map (\<lambda>u. UrlComplete u (or_empty (cache_get (st_store st) u)) True)
                   (filter (\<lambda>u. truthy_str (cache_get (st_store st) u)) us)"
proof (induction us arbitrary: st)
  case Nil
  then show ?case by simp
next
  case (Cons u us)
  show ?case
    by (cases "cache_get (st_store st) u")
      (simp_all add: Cons.IH emit_def truthy_str_def or_empty_def)
qed

lemma serve_cached_frame:
  "st_store (serve_cached us st) = st_store st \<and> polled (serve_cached us st) = polled st"
proof (induction us arbitrary: st)
  case Nil
  then show ?case by simp
next
  case (Cons u us)
  show ?case
    by (cases "cache_get (st_store st) u") (simp_all add: Cons.IH emit_def)
qed

text \<open>
  C8, as amended. For a stored job whose status is \<open>cache_hit\<close> and whose
  \<open>crawledUrls\<close> is present, the status stream emits, in the order of
  \<open>crawledUrls\<close>, one \<open>url_complete\<close> event tagged \<open>cached = true\<close> with the
  cached content for every listed URL whose cached content is present and not empty (a
  URL without such content gets no event), then a single \<open>complete\<close> event whose
  \<open>creditsUsed\<close> is 0 and whose \<open>total\<close> is the number of \<open>crawledUrls\<close>; it
  polls the remote provider not once and leaves the store as it was.
\<close>

theorem C8_cache_fast_path:
  assumes "truthy_str apiKey" and "getCrawlJob s jobId = Some job"
    and "j_status job = ''cache_hit''" and "j_crawledUrls job = Some us"
  shows "map_option events (streamed (GET apiKey s t0 jobId script)) =
           Some (map (\<lambda>u. UrlComplete u (or_empty (cache_get s u)) True)
                   (filter (\<lambda>u. truthy_str (cache_get s u)) us)
                 @ [CompleteMsg (length us) 0])
       \<and> map_option polled (streamed (GET apiKey s t0 jobId script)) = Some []
       \<and> map_option st_store (streamed (GET apiKey s t0 jobId script)) = Some s"
proof -
  have "GET apiKey s t0 jobId script = Some (Streamed (fast_path us (initial s t0 job)))"
    using assms by (simp add: GET_def start_stream_def)
  then show ?thesis
    by (simp add: streamed_def fast_path_def emit_def serve_cached_events serve_cached_frame
        initial_def)
qed

theorem C8_cache_fast_path_witness:
  "map_option events (streamed (GET (Some ''fc-key'') hit_store 5000 ''job-1'' [])) =
     Some [UrlComplete ''https://docs.example.com/a'' ''# A'' True, CompleteMsg 2 0]
   \<and> map_option polled (streamed (GET (Some ''fc-key'') hit_store 5000 ''job-1'' [])) = Some []"
proof -
  have a: "truthy_str (Some ''fc-key'')"
    by (simp add: truthy_str_def)
  have b: "getCrawlJob hit_store ''job-1'' = Some hit_job"
    by (simp add: hit_store_def getCrawlJob_def)
  have c: "j_status hit_job = ''cache_hit''"
    by (simp add: hit_job_def)
  have d: "j_crawledUrls hit_job
             = Some [''https://docs.example.com/a'', ''https://docs.example.com/b'']"
    by (simp add: hit_job_def)
  have e: "map (\<lambda>u. UrlComplete u (or_empty (cache_get hit_store u)) True)
             (filter (\<lambda>u. truthy_str (cache_get hit_store u))
                [''https://docs.example.com/a'', ''https://docs.example.com/b''])
           @ [CompleteMsg (length [''https://docs.example.com/a'', ''https://docs.example.com/b'']) 0]
           = [UrlComplete ''https://docs.example.com/a'' ''# A'' True, CompleteMsg 2 0]"
    by (simp add: hit_store_def cache_get_def truthy_str_def or_empty_def)
  show ?thesis
    using C8_cache_fast_path[OF a b c d, of 5000 "[]"] unfolding e by blast
qed

text \<open>
  C8 as stated fails: a \<open>cache_hit\<close> job lists two URLs, the second is no longer in
  the cache, and the stream emits a single \<open>url_complete\<close> event before
  \<open>complete\<close> with total 2.
\<close>

theorem C8_uncached_url_counterexample:
  "map_option j_crawledUrls (getCrawlJob hit_store ''job-1'')
     = Some (Some [''https://docs.example.com/a'', ''https://docs.example.com/b''])
   \<and> map_option events (streamed (GET (Some ''fc-key'') hit_store 5000 ''job-1'' [])) =
     Some [UrlComplete ''https://docs.example.com/a'' ''# A'' True, CompleteMsg 2 0]"
  by (simp add: GET_def start_stream_def fast_path_def initial_def streamed_def emit_def
      hit_store_def hit_job_def truthy_str_def getCrawlJob_def cache_get_def)

subsection \<open>Manifest bootstrap\<close>

lemma seed_filter_cached:
  "filter (\<lambda>u. mget s ps u \<noteq> Some None) ps = filter (\<lambda>u. cache_get s u \<noteq> None) ps"
  by (rule filter_cong) (auto simp: mget_def cache_get_def)

lemma seed_filter_missing:
  "filter (\<lambda>u. mget s ps u = Some None) ps = filter (\<lambda>u. cache_get s u = None) ps"
  by (rule filter_cong) (auto simp: mget_def cache_get_def)

text \<open>
  C9. A seed request is one the endpoint's input checks accept: a non-empty \<open>url\<close>
  string from an allowed documentation domain and an array of candidate page URLs. When
  at least one candidate is in the cache, the manifest stored for the start URL is exactly
  the candidates that are in the cache, in their order (no candidate that is not cached
  is stored), and the response carries the number stored, the number missing and the
  list of the missing candidates (the field is left out when none is missing).
\<close>

theorem C9_seed_stores_verified_subset:
  assumes "sb_url body = Some url" and "url \<noteq> []" and "isValid url"
    and "sb_pageUrls body = Some pageUrls"
    and "\<exists>u \<in> set pageUrls. cache_get s u \<noteq> None"
  shows "getCrawlUrlMap (snd (POST_seed isValid body s)) url
           = Some (filter (\<lambda>u. cache_get s u \<noteq> None) pageUrls)
       \<and> fst (POST_seed isValid body s)
           = SeedStored url
               (length (filter (\<lambda>u. cache_get s u \<noteq> None) pageUrls))
               (length (filter (\<lambda>u. cache_get s u = None) pageUrls))
               (if filter (\<lambda>u. cache_get s u = None) pageUrls = [] then None
                else Some (filter (\<lambda>u. cache_get s u = None) pageUrls))"
proof -
  from assms(5) have ne: "pageUrls \<noteq> []" by auto
  from assms(5) have c: "filter (\<lambda>u. cache_get s u \<noteq> None) pageUrls \<noteq> []"
    by (auto simp: filter_empty_conv)
  show ?thesis
    using assms(1-4) ne c
    by (simp add: POST_seed_def Let_def seed_filter_cached seed_filter_missing
        setCrawlUrlMap_def getCrawlUrlMap_def)
qed

theorem C9_seed_stores_verified_subset_witness:
  "getCrawlUrlMap (snd (POST_seed docs_only
       (seed_body [''https://docs.example.com/a'', ''https://docs.example.com/z'']) warm_store))
     ''https://docs.example.com/'' = Some [''https://docs.example.com/a'']
   \<and> fst (POST_seed docs_only
       (seed_body [''https://docs.example.com/a'', ''https://docs.example.com/z'']) warm_store)
     = SeedStored ''https://docs.example.com/'' 1 1 (Some [''https://docs.example.com/z''])"
  using C9_seed_stores_verified_subset[of
      "seed_body [''https://docs.example.com/a'', ''https://docs.example.com/z'']"
      "''https://docs.example.com/''" docs_only
      "[''https://docs.example.com/a'', ''https://docs.example.com/z'']" warm_store]
  by (simp add: seed_body_def docs_only_def warm_store_def cache_get_def)

text \<open>
  C10. When none of the candidates of a seed request (accepted by the input checks, so
  with at least one candidate) is in the cache, the endpoint answers 404 with every
  candidate listed as missing and writes nothing: the store, and with it any manifest
  held for the start URL, is as before.
\<close>

theorem C10_seed_none_cached:
  assumes "sb_url body = Some url" and "url \<noteq> []" and "isValid url"
    and "sb_pageUrls body = Some pageUrls" and "pageUrls \<noteq> []"
    and "\<forall>u \<in> set pageUrls. cache_get s u = None"
  shows "fst (POST_seed isValid body s)
           = SeedError 404 ''None of the provided page URLs are cached'' (Some pageUrls)
       \<and> snd (POST_seed isValid body s) = s
       \<and> getCrawlUrlMap (snd (POST_seed isValid body s)) url = getCrawlUrlMap s url"
proof -
  from assms(6) have c: "filter (\<lambda>u. cache_get s u \<noteq> None) pageUrls = []"
    by (auto simp: filter_empty_conv)
  from assms(6) have m: "filter (\<lambda>u. cache_get s u = None) pageUrls = pageUrls"
    by (auto simp: filter_id_conv)
  show ?thesis
    using assms(1-5) c m
    by (simp add: POST_seed_def Let_def seed_filter_cached seed_filter_missing)
qed

theorem C10_seed_none_cached_witness:
  "fst (POST_seed docs_only
       (seed_body [''https://docs.example.com/y'', ''https://docs.example.com/z'']) warm_store)
     = SeedError 404 ''None of the provided page URLs are cached''
         (Some [''https://docs.example.com/y'', ''https://docs.example.com/z''])
   \<and> getCrawlUrlMap (snd (POST_seed docs_only
       (seed_body [''https://docs.example.com/y'', ''https://docs.example.com/z'']) warm_store))
     ''https://docs.example.com/'' = Some [''https://docs.example.com/a'']"
  using C10_seed_none_cached[of
      "seed_body [''https://docs.example.com/y'', ''https://docs.example.com/z'']"
      "''https://docs.example.com/''" docs_only
      "[''https://docs.example.com/y'', ''https://docs.example.com/z'']" warm_store]
  by (simp add: seed_body_def docs_only_def warm_store_def cache_get_def getCrawlUrlMap_def)

subsection \<open>The polling loop\<close>

lemma process_page_frame [simp]:
  "now (process_page pg st) = now st"
  "startTime (process_page pg st) = startTime st"
  "isComplete (process_page pg st) = isComplete st"
  "lastPageNumber (process_page pg st) = lastPageNumber st"
  "consecutiveErrors (process_page pg st) = consecutiveErrors st"
  "lastProgressUpdate (process_page pg st) = lastProgressUpdate st"
  "lastCompletedCount (process_page pg st) = lastCompletedCount st"
  "jobNext (process_page pg st) = jobNext st"
  "polled (process_page pg st) = polled st"
  by (simp_all add: process_page_def emit_def Let_def split: option.splits)

lemma process_pages_frame [simp]:
  "now (process_pages pgs st) = now st"
  "startTime (process_pages pgs st) = startTime st"
  "isComplete (process_pages pgs st) = isComplete st"
  "lastPageNumber (process_pages pgs st) = lastPageNumber st"
  "consecutiveErrors (process_pages pgs st) = consecutiveErrors st"
  "lastProgressUpdate (process_pages pgs st) = lastProgressUpdate st"
  "lastCompletedCount (process_pages pgs st) = lastCompletedCount st"
  "jobNext (process_pages pgs st) = jobNext st"
  "polled (process_pages pgs st) = polled st"
  by (induction pgs arbitrary: st; simp)+

lemma mark_frame [simp]:
  "now (mark_completed j u d st) = now st"
  "startTime (mark_completed j u d st) = startTime st"
  "isComplete (mark_completed j u d st)"
  "now (mark_failed j st) = now st"
  "startTime (mark_failed j st) = startTime st"
  "isComplete (mark_failed j st)"
  by (simp_all add: mark_completed_def mark_failed_def emit_def Let_def)

lemma handle_ok_time [simp]:
  "now (handle_ok j u d pt st) = now st + pt"
  "startTime (handle_ok j u d pt st) = startTime st"
  by (simp_all add: handle_ok_def remember_next_def check_completion_def process_data_def
      publish_progress_def record_progress_def emit_def Let_def split: option.splits)

lemma handle_error_time [simp]:
  "now (handle_error_status code st) = now st"
  "startTime (handle_error_status code st) = startTime st"
  "now (handle_exception msg st) = now st"
  "startTime (handle_exception msg st) = startTime st"
  by (simp_all add: handle_error_status_def handle_exception_def emit_def Let_def)

lemma poll_once_time:
  "now (poll_once j u p st) =
     now st + latency p + (case result p of Ok d \<Rightarrow> proc p | _ \<Rightarrow> 0)"
  "startTime (poll_once j u p st) = startTime st"
  by (simp_all add: poll_once_def Let_def split: pollResult.splits)

lemma delay_bounds: "pollInterval \<le> delay st" "delay st \<le> 30000"
  by (simp_all add: delay_def pollInterval_def)

lemma iteration_startTime [simp]: "startTime (iteration j u p st) = startTime st"
  by (simp add: iteration_def wait_def poll_once_time)

lemma iteration_isComplete [simp]:
  "isComplete (iteration j u p st) = isComplete (poll_once j u p st)"
  by (simp add: iteration_def wait_def)

lemma iteration_now_lower:
  "\<not> isComplete (iteration j u p st) \<Longrightarrow> now st + pollInterval \<le> now (iteration j u p st)"
  using delay_bounds(1)[of "poll_once j u p st"]
  by (cases "isComplete (poll_once j u p st)") (simp_all add: iteration_def wait_def poll_once_time)

lemma iteration_now_upper:
  "now (iteration j u p st) \<le> now st + latency p + proc p + 30000 + overrun p"
  using delay_bounds(2)[of "poll_once j u p st"]
  by (simp add: iteration_def wait_def poll_once_time split: pollResult.splits)

lemma poll_loop_done: "\<not> loop_cond st \<Longrightarrow> poll_loop j u ps st = Some st"
  by (cases ps) simp_all

lemma poll_loop_exit: "poll_loop j u ps st = Some st' \<Longrightarrow> \<not> loop_cond st'"
  by (induction ps arbitrary: st) (simp_all split: if_splits)

lemma poll_loop_startTime: "poll_loop j u ps st = Some st' \<Longrightarrow> startTime st' = startTime st"
  by (induction ps arbitrary: st) (auto split: if_splits)

lemma poll_loop_total:
  "maxPollingTime \<le> (now st - startTime st) + pollInterval * length ps \<Longrightarrow>
   startTime st \<le> now st \<Longrightarrow> poll_loop j u ps st \<noteq> None"
proof (induction ps arbitrary: st)
  case Nil
  then show ?case by (simp add: loop_cond_def)
next
  case (Cons p ps)
  show ?case
  proof (cases "loop_cond st")
    case False
    then show ?thesis by simp
  next
    case True
    show ?thesis
    proof (cases "isComplete (iteration j u p st)")
      case c: True
      then have "\<not> loop_cond (iteration j u p st)" by (simp add: loop_cond_def)
      then show ?thesis using True by (simp add: poll_loop_done)
    next
      case c: False
      have "now st + pollInterval \<le> now (iteration j u p st)"
        using c by (rule iteration_now_lower)
      then have "poll_loop j u ps (iteration j u p st) \<noteq> None"
        using Cons.prems by (intro Cons.IH) simp_all
      then show ?thesis using True by simp
    qed
  qed
qed

subsection \<open>Error responses while polling\<close>

lemma gateway_step:
  assumes "result p = HttpError code" and "code \<in> {502, 503, 504}"
  shows "consecutiveErrors (poll_once j u p st) = consecutiveErrors st + 1"
    and "consecutiveErrors st + 1 < maxConsecutiveErrors \<Longrightarrow>
           events (poll_once j u p st) = events st \<and> isComplete (poll_once j u p st) = isComplete st"
    and "maxConsecutiveErrors \<le> consecutiveErrors st + 1 \<Longrightarrow>
           events (poll_once j u p st) = events st @ [ErrorMsg
             ''Too many consecutive gateway errors. The service may be temporarily unavailable.'']
           \<and> isComplete (poll_once j u p st)"
  using assms by (auto simp add: poll_once_def handle_error_status_def emit_def Let_def)

lemma other_status_step:
  assumes "result p = HttpError code" and "code \<notin> {502, 503, 504}"
  shows "events (poll_once j u p st) =
           events st @ [ErrorMsg (''Failed to get crawl status: '' @ show_nat code)]"
    and "isComplete (poll_once j u p st) = isComplete st"
    and "consecutiveErrors (poll_once j u p st) = consecutiveErrors st"
  using assms by (auto simp add: poll_once_def handle_error_status_def emit_def Let_def)

lemma stream_closes:
  assumes "loop_cond st" and "isComplete (poll_once j u p st)"
  shows "poll_stream j u (p # ps) st = Some (poll_once j u p st)"
proof -
  have i: "iteration j u p st = poll_once j u p st"
    using assms(2) by (simp add: iteration_def wait_def)
  have "\<not> loop_cond (poll_once j u p st)"
    using assms(2) by (simp add: loop_cond_def)
  then have "poll_loop j u ps (poll_once j u p st) = Some (poll_once j u p st)"
    by (rule poll_loop_done)
  then show ?thesis
    using assms by (simp add: i finish_def poll_stream_def)
qed

text \<open>
  C4. While a live job is polled, a response with status 502, 503 or 504 increments the
  consecutive-error counter. As long as the incremented counter is below the threshold
  of 5, no event is emitted and the loop flag is untouched; when it reaches the threshold
  the explanatory error event is emitted and the stream ends with it, whatever polls
  would follow. A response with any other error status at once emits an error event
  naming the status and leaves both the loop flag and the counter as they were, so
  polling goes on.
\<close>

theorem C4_error_responses:
  assumes "result p = HttpError code"
  shows "(code \<in> {502, 503, 504} \<longrightarrow>
            consecutiveErrors (poll_once j u p st) = consecutiveErrors st + 1
          \<and> (consecutiveErrors st + 1 < maxConsecutiveErrors \<longrightarrow>
                events (poll_once j u p st) = events st
              \<and> isComplete (poll_once j u p st) = isComplete st)
          \<and> (maxConsecutiveErrors \<le> consecutiveErrors st + 1 \<and> loop_cond st \<longrightarrow>
                poll_stream j u (p # ps) st = Some (poll_once j u p st)
              \<and> events (poll_once j u p st) = events st @ [ErrorMsg
                  ''Too many consecutive gateway errors. The service may be temporarily unavailable.'']))
       \<and> (code \<notin> {502, 503, 504} \<longrightarrow>
            events (poll_once j u p st) =
              events st @ [ErrorMsg (''Failed to get crawl status: '' @ show_nat code)]
          \<and> isComplete (poll_once j u p st) = isComplete st
          \<and> consecutiveErrors (poll_once j u p st) = consecutiveErrors st)"
proof (intro conjI impI)
  assume g: "code \<in> {502, 503, 504}"
  show "consecutiveErrors (poll_once j u p st) = consecutiveErrors st + 1"
    using assms g by (rule gateway_step(1))
  {
    assume "consecutiveErrors st + 1 < maxConsecutiveErrors"
    with gateway_step(2)[OF assms g]
    show "events (poll_once j u p st) = events st"
      and "isComplete (poll_once j u p st) = isComplete st"
      by simp_all
  }
  {
    assume h: "maxConsecutiveErrors \<le> consecutiveErrors st + 1 \<and> loop_cond st"
    with gateway_step(3)[OF assms g, of st j u]
    have e: "events (poll_once j u p st) = events st @ [ErrorMsg
             ''Too many consecutive gateway errors. The service may be temporarily unavailable.'']"
      and c: "isComplete (poll_once j u p st)"
      by simp_all
    from h c show "poll_stream j u (p # ps) st = Some (poll_once j u p st)"
      by (intro stream_closes) simp_all
    from e show "events (poll_once j u p st) = events st @ [ErrorMsg
             ''Too many consecutive gateway errors. The service may be temporarily unavailable.'']" .
  }
next
  assume n: "code \<notin> {502, 503, 504}"
  show "events (poll_once j u p st) =
              events st @ [ErrorMsg (''Failed to get crawl status: '' @ show_nat code)]"
    using assms n by (rule other_status_step(1))
  show "isComplete (poll_once j u p st) = isComplete st"
    using assms n by (rule other_status_step(2))
  show "consecutiveErrors (poll_once j u p st) = consecutiveErrors st"
    using assms n by (rule other_status_step(3))
qed

lemma show_nat_429: "show_nat 429 = ''429''"
  by code_simp

theorem C4_error_responses_witness:
  "consecutiveErrors (poll_once ''job-2'' ''https://docs.example.com/'' (error_poll 503) (live_stream 2)) = 3
   \<and> events (poll_once ''job-2'' ''https://docs.example.com/'' (error_poll 503) (live_stream 2)) = []
   \<and> isComplete (poll_once ''job-2'' ''https://docs.example.com/'' (error_poll 503) (live_stream 2)) = False
   \<and> poll_stream ''job-2'' ''https://docs.example.com/'' [error_poll 503, error_poll 503] (live_stream 4)
       = Some (poll_once ''job-2'' ''https://docs.example.com/'' (error_poll 503) (live_stream 4))
   \<and> events (poll_once ''job-2'' ''https://docs.example.com/'' (error_poll 503) (live_stream 4))
       = [ErrorMsg ''Too many consecutive gateway errors. The service may be temporarily unavailable.'']
   \<and> events (poll_once ''job-2'' ''https://docs.example.com/'' (error_poll 429) (live_stream 4))
       = [ErrorMsg ''Failed to get crawl status: 429'']
   \<and> isComplete (poll_once ''job-2'' ''https://docs.example.com/'' (error_poll 429) (live_stream 4)) = False
   \<and> consecutiveErrors (poll_once ''job-2'' ''https://docs.example.com/'' (error_poll 429) (live_stream 4)) = 4"
proof -
  have r: "result (error_poll 503) = HttpError 503" "result (error_poll 429) = HttpError 429"
    by (simp_all add: error_poll_def)
  have s: "consecutiveErrors (live_stream 2) = 2" "consecutiveErrors (live_stream 4) = 4"
    "events (live_stream 2) = []" "events (live_stream 4) = []"
    "isComplete (live_stream 2) = False" "isComplete (live_stream 4) = False"
    "loop_cond (live_stream 4)"
    by (simp_all add: live_stream_def initial_def loop_cond_def maxPollingTime_def)
  show ?thesis
    using C4_error_responses[OF r(1), of "''job-2''" "''https://docs.example.com/''" "live_stream 2" "[]"]
      C4_error_responses[OF r(1), of "''job-2''" "''https://docs.example.com/''" "live_stream 4" "[error_poll 503]"]
      C4_error_responses[OF r(2), of "''job-2''" "''https://docs.example.com/''" "live_stream 4" "[]"]
    by (simp add: s maxConsecutiveErrors_def show_nat_429)
qed

subsection \<open>What the failure paths write\<close>

lemma failed_poll_store:
  "poll_failed p \<Longrightarrow> st_store (iteration j u p st) = st_store st"
  by (simp add: poll_failed_def iteration_def wait_def poll_once_def handle_error_status_def
      handle_exception_def emit_def Let_def split: pollResult.splits)

lemma finish_store: "st_store (finish st) = st_store st"
  by (simp add: finish_def emit_def)

lemma failed_polls_store:
  "list_all poll_failed ps \<Longrightarrow> poll_loop j u ps st = Some st' \<Longrightarrow> st_store st' = st_store st"
proof (induction ps arbitrary: st)
  case Nil
  then show ?case by (simp split: if_splits)
next
  case (Cons p ps)
  show ?case
  proof (cases "loop_cond st")
    case True
    with Cons.prems have "poll_loop j u ps (iteration j u p st) = Some st'" by simp
    moreover from Cons.prems have "list_all poll_failed ps" by simp
    ultimately have "st_store st' = st_store (iteration j u p st)" by (rule Cons.IH[rotated])
    with Cons.prems show ?thesis by (simp add: failed_poll_store)
  next
    case False
    with Cons.prems show ?thesis by simp
  qed
qed

text \<open>
  C7, as amended. The paths on which a status stream of a live job ends with an error
  that the provider did not report (the gateway-error threshold, the network-error
  threshold, the polling ceiling) write nothing to the store: an iteration whose poll
  did not bring a 2xx response leaves the store as it was, and so does the timeout step
  after the loop. The stored job therefore keeps the status it had; in particular, after
  a stream whose polls all failed, the stored status is the one the stream found, which
  for a live job is the non-terminal \<open>crawling\<close>.
\<close>

theorem C7_failure_paths_write_nothing:
  "(poll_failed p \<longrightarrow> st_store (iteration j u p st) = st_store st)
   \<and> st_store (finish st) = st_store st
   \<and> (list_all poll_failed ps \<and> poll_stream j u ps st = Some st' \<longrightarrow>
        stored_status j st' = stored_status j st)"
proof (intro conjI impI)
  show "poll_failed p \<Longrightarrow> st_store (iteration j u p st) = st_store st"
    by (rule failed_poll_store)
  show "st_store (finish st) = st_store st"
    by (rule finish_store)
  assume h: "list_all poll_failed ps \<and> poll_stream j u ps st = Some st'"
  then obtain st1 where l: "poll_loop j u ps st = Some st1" and f: "st' = finish st1"
    by (auto simp: poll_stream_def)
  from h l have "st_store st1 = st_store st" by (intro failed_polls_store) simp_all
  then show "stored_status j st' = stored_status j st"
    by (simp add: f stored_status_def finish_store)
qed

text \<open>Five polls in a row that fail with an exception, and five answered 503.\<close>

lemma five_failures:
  "poll_stream ''job-2'' ''https://docs.example.com/''
     [failing_poll, failing_poll, failing_poll, failing_poll, failing_poll] (live_stream 0)
   = Some ((live_stream 5)\<lparr>isComplete := True, now := 36500,
        events := [ErrorMsg ''Too many consecutive errors. fetch failed''],
        polled := [''https://api.firecrawl.dev/v1/crawl/job-2'', ''https://api.firecrawl.dev/v1/crawl/job-2'', ''https://api.firecrawl.dev/v1/crawl/job-2'', ''https://api.firecrawl.dev/v1/crawl/job-2'', ''https://api.firecrawl.dev/v1/crawl/job-2'']\<rparr>)"
  by (simp add: poll_stream_def loop_cond_def iteration_def wait_def poll_once_def
      handle_exception_def delay_def finish_def emit_def statusUrl_def truthy_str_def
      failing_poll_def live_stream_def initial_def live_job_def
      maxPollingTime_def maxConsecutiveErrors_def pollInterval_def FIRECRAWL_API_URL_def)

theorem C7_failure_paths_write_nothing_witness:
  "st_store (iteration ''job-2'' ''https://docs.example.com/'' failing_poll (live_stream 4))
     = st_store (live_stream 4)
   \<and> st_store (finish (live_stream 0)) = st_store (live_stream 0)
   \<and> stored_status ''job-2'' ((live_stream 5)\<lparr>isComplete := True, now := 36500,
        events := [ErrorMsg ''Too many consecutive errors. fetch failed''],
        polled := [''https://api.firecrawl.dev/v1/crawl/job-2'', ''https://api.firecrawl.dev/v1/crawl/job-2'', ''https://api.firecrawl.dev/v1/crawl/job-2'', ''https://api.firecrawl.dev/v1/crawl/job-2'', ''https://api.firecrawl.dev/v1/crawl/job-2'']\<rparr>)
     = stored_status ''job-2'' (live_stream 0)
   \<and> stored_status ''job-2'' (live_stream 0) = Some ''crawling''"
proof -
  have f: "poll_failed failing_poll"
    by (simp add: poll_failed_def failing_poll_def)
  have s: "stored_status ''job-2'' (live_stream 0) = Some ''crawling''"
    by (simp add: stored_status_def live_stream_def initial_def live_store_def live_job_def
        getCrawlJob_def)
  show ?thesis
    using C7_failure_paths_write_nothing[of failing_poll "''job-2''" "''https://docs.example.com/''"
        "live_stream 4" "[]" "live_stream 4"]
      C7_failure_paths_write_nothing[of failing_poll "''job-2''" "''https://docs.example.com/''"
        "live_stream 0"
        "[failing_poll, failing_poll, failing_poll, failing_poll, failing_poll]"
        "(live_stream 5)\<lparr>isComplete := True, now := 36500,
        events := [ErrorMsg ''Too many consecutive errors. fetch failed''],
        polled := [''https://api.firecrawl.dev/v1/crawl/job-2'', ''https://api.firecrawl.dev/v1/crawl/job-2'', ''https://api.firecrawl.dev/v1/crawl/job-2'', ''https://api.firecrawl.dev/v1/crawl/job-2'', ''https://api.firecrawl.dev/v1/crawl/job-2'']\<rparr>"]
      five_failures f s
    by simp
qed

lemma five_gateway_errors:
  "GET (Some ''fc-key'') live_store 5000 ''job-2''
     [error_poll 503, error_poll 503, error_poll 503, error_poll 503, error_poll 503]
   = Some (Streamed ((live_stream 5)\<lparr>isComplete := True, now := 36500,
        events := [ErrorMsg
          ''Too many consecutive gateway errors. The service may be temporarily unavailable.''],
        polled := [''https://api.firecrawl.dev/v1/crawl/job-2'', ''https://api.firecrawl.dev/v1/crawl/job-2'', ''https://api.firecrawl.dev/v1/crawl/job-2'', ''https://api.firecrawl.dev/v1/crawl/job-2'', ''https://api.firecrawl.dev/v1/crawl/job-2'']\<rparr>))"
  by (simp add: GET_def getCrawlJob_def start_stream_def
      poll_stream_def loop_cond_def iteration_def wait_def poll_once_def
      handle_error_status_def delay_def finish_def emit_def statusUrl_def truthy_str_def
      error_poll_def live_stream_def initial_def live_job_def live_store_def
      maxPollingTime_def maxConsecutiveErrors_def pollInterval_def FIRECRAWL_API_URL_def)

text \<open>
  C7 as stated fails: five consecutive 503 responses end the stream of a live job with
  the gateway error event, and the job store still holds the job as \<open>crawling\<close>.
\<close>

theorem C7_gateway_threshold_counterexample:
  "map_option events (streamed (GET (Some ''fc-key'') live_store 5000 ''job-2''
       [error_poll 503, error_poll 503, error_poll 503, error_poll 503, error_poll 503]))
     = Some [ErrorMsg
         ''Too many consecutive gateway errors. The service may be temporarily unavailable.'']
   \<and> map_option (stored_status ''job-2'') (streamed (GET (Some ''fc-key'') live_store 5000 ''job-2''
       [error_poll 503, error_poll 503, error_poll 503, error_poll 503, error_poll 503]))
     = Some (Some ''crawling'')"
  unfolding five_gateway_errors
  by (simp add: streamed_def stored_status_def live_stream_def initial_def
      live_store_def live_job_def getCrawlJob_def)

subsection \<open>What a manifest write lists\<close>

lemma all_cached_cong:
  "cache (st_store st') = cache (st_store st) \<Longrightarrow> sentUrls st' = sentUrls st \<Longrightarrow>
   all_cached st' = all_cached st"
  by (simp add: all_cached_def cache_get_def)

lemma process_page_other_stores [simp]:
  "urlMap (st_store (process_page pg st)) = urlMap (st_store st)"
  "jobs (st_store (process_page pg st)) = jobs (st_store st)"
  by (simp_all add: process_page_def emit_def cache_set_def Let_def split: option.splits)

lemma process_pages_other_stores [simp]:
  "urlMap (st_store (process_pages pgs st)) = urlMap (st_store st)"
  "jobs (st_store (process_pages pgs st)) = jobs (st_store st)"
  by (induction pgs arbitrary: st; simp)+

lemma process_page_cached:
  assumes "all_cached st" and "MIN_CONTENT_LENGTH \<le> length (or_empty (markdown pg))"
  shows "all_cached (process_page pg st)"
  using assms
  by (auto simp add: all_cached_def process_page_def emit_def cache_set_def cache_get_def Let_def
      list_all_iff split: option.splits)

lemma process_pages_cached:
  assumes "all_cached st"
    and "list_all (\<lambda>pg. MIN_CONTENT_LENGTH \<le> length (or_empty (markdown pg))) pgs"
  shows "all_cached (process_pages pgs st)"
  using assms
proof (induction pgs arbitrary: st)
  case Nil
  then show ?case by simp
next
  case (Cons pg pgs)
  from Cons.prems have "all_cached (process_page pg st)"
    by (intro process_page_cached) simp_all
  with Cons.prems show ?case by (simp add: Cons.IH)
qed

lemma update_job_view [simp]:
  "cache (updateCrawlJobStatus s j f) = cache s"
  "urlMap (updateCrawlJobStatus s j f) = urlMap s"
  "cache (setCrawlResults s j n pgs) = cache s"
  "urlMap (setCrawlResults s j n pgs) = urlMap s"
  by (simp_all add: updateCrawlJobStatus_def setCrawlResults_def split: option.splits)

lemma record_progress_view [simp]:
  "st_store (record_progress d st) = st_store st"
  "sentUrls (record_progress d st) = sentUrls st"
  "isComplete (record_progress d st) = isComplete st"
  by (simp_all add: record_progress_def Let_def)

lemma publish_progress_view [simp]:
  "cache (st_store (publish_progress j d st)) = cache (st_store st)"
  "urlMap (st_store (publish_progress j d st)) = urlMap (st_store st)"
  "sentUrls (publish_progress j d st) = sentUrls st"
  "isComplete (publish_progress j d st) = isComplete st"
  by (simp_all add: publish_progress_def emit_def)

lemma process_data_view [simp]:
  "urlMap (st_store (process_data j d st)) = urlMap (st_store st)"
  "isComplete (process_data j d st) = isComplete st"
  by (simp_all add: process_data_def Let_def split: option.splits)

lemma process_data_cached:
  assumes "all_cached st"
    and "case d_data d of None \<Rightarrow> True
         | Some pgs \<Rightarrow> list_all (\<lambda>pg. MIN_CONTENT_LENGTH \<le> length (or_empty (markdown pg))) pgs"
  shows "all_cached (process_data j d st)"
proof (cases "d_data d")
  case None
  with assms(1) show ?thesis by (simp add: process_data_def)
next
  case (Some pgs)
  have "all_cached (st\<lparr>st_store := setCrawlResults (st_store st) j (lastPageNumber st) pgs\<rparr>)
          = all_cached st"
    by (rule all_cached_cong) simp_all
  with assms Some
  have "all_cached (process_pages pgs
          (st\<lparr>st_store := setCrawlResults (st_store st) j (lastPageNumber st) pgs\<rparr>))"
    by (intro process_pages_cached) simp_all
  moreover have "all_cached (process_data j d st)
     = all_cached (process_pages pgs
          (st\<lparr>st_store := setCrawlResults (st_store st) j (lastPageNumber st) pgs\<rparr>))"
    using Some by (intro all_cached_cong) (simp_all add: process_data_def Let_def)
  ultimately show ?thesis by simp
qed

lemma mark_completed_view [simp]:
  "cache (st_store (mark_completed j u d st)) = cache (st_store st)"
  "sentUrls (mark_completed j u d st) = sentUrls st"
  "urlMap (st_store (mark_completed j u d st)) =
     (if sentUrls st = [] then urlMap (st_store st) else (urlMap (st_store st))(u \<mapsto> sentUrls st))"
  by (simp_all add: mark_completed_def emit_def setCrawlUrlMap_def Let_def)

lemma mark_failed_view [simp]:
  "cache (st_store (mark_failed j st)) = cache (st_store st)"
  "sentUrls (mark_failed j st) = sentUrls st"
  "urlMap (st_store (mark_failed j st)) = urlMap (st_store st)"
  by (simp_all add: mark_failed_def emit_def)

lemma check_completion_view [simp]:
  "cache (st_store (check_completion j u d st)) = cache (st_store st)"
  "sentUrls (check_completion j u d st) = sentUrls st"
  by (simp_all add: check_completion_def Let_def)

lemma check_completion_manifest:
  "urlMap (st_store (check_completion j u d st)) = urlMap (st_store st)
   \<or> (isComplete (check_completion j u d st)
      \<and> urlMap (st_store (check_completion j u d st)) = (urlMap (st_store st))(u \<mapsto> sentUrls st))"
  by (simp add: check_completion_def Let_def)

lemma remember_next_view [simp]:
  "st_store (remember_next d st) = st_store st"
  "sentUrls (remember_next d st) = sentUrls st"
  "isComplete (remember_next d st) = isComplete st"
  by (simp_all add: remember_next_def)

lemma handle_ok_cached:
  assumes "all_cached st"
    and "case d_data d of None \<Rightarrow> True
         | Some pgs \<Rightarrow> list_all (\<lambda>pg. MIN_CONTENT_LENGTH \<le> length (or_empty (markdown pg))) pgs"
  shows "all_cached (handle_ok j u d pt st)"
proof -
  have "all_cached (publish_progress j d (record_progress d st)) = all_cached st"
    by (rule all_cached_cong) simp_all
  with assms have "all_cached (process_data j d (publish_progress j d (record_progress d st)))"
    by (intro process_data_cached) simp_all
  moreover have "all_cached (handle_ok j u d pt st)
    = all_cached (process_data j d (publish_progress j d (record_progress d st)))"
    by (rule all_cached_cong) (simp_all add: handle_ok_def Let_def)
  ultimately show ?thesis by simp
qed

lemma handle_ok_manifest:
  "urlMap (st_store (handle_ok j u d pt st)) = urlMap (st_store st)
   \<or> (isComplete (handle_ok j u d pt st)
      \<and> urlMap (st_store (handle_ok j u d pt st))
          = (urlMap (st_store st))(u \<mapsto> sentUrls (handle_ok j u d pt st)))"
  using check_completion_manifest[of j u d
      "(process_data j d (publish_progress j d (record_progress d st)))
         \<lparr>now := now (process_data j d (publish_progress j d (record_progress d st))) + pt\<rparr>"]
  by (simp add: handle_ok_def Let_def)

lemma iteration_cached:
  assumes "all_cached st" and "long_pages p"
  shows "all_cached (iteration j u p st)"
proof -
  have "all_cached (iteration j u p st) = all_cached (poll_once j u p st)"
    by (rule all_cached_cong) (simp_all add: iteration_def wait_def)
  moreover have "all_cached (poll_once j u p st)"
  proof (cases "result p")
    case (Ok d)
    have "all_cached (st\<lparr>polled := polled st @ [statusUrl j st], now := now st + latency p\<rparr>)
            = all_cached st"
      by (rule all_cached_cong) simp_all
    with assms Ok show ?thesis
      by (simp add: poll_once_def Let_def long_pages_def handle_ok_cached)
  next
    case (HttpError code)
    have "all_cached (poll_once j u p st) = all_cached st"
      using HttpError
      by (intro all_cached_cong)
        (simp_all add: poll_once_def handle_error_status_def emit_def Let_def)
    with assms show ?thesis by simp
  next
    case (Throws msg)
    have "all_cached (poll_once j u p st) = all_cached st"
      using Throws
      by (intro all_cached_cong)
        (simp_all add: poll_once_def handle_exception_def emit_def Let_def)
    with assms show ?thesis by simp
  qed
  ultimately show ?thesis by simp
qed

lemma iteration_manifest:
  "urlMap (st_store (iteration j u p st)) = urlMap (st_store st)
   \<or> (isComplete (iteration j u p st)
      \<and> urlMap (st_store (iteration j u p st))
          = (urlMap (st_store st))(u \<mapsto> sentUrls (iteration j u p st)))"
proof (cases "result p")
  case (Ok d)
  show ?thesis
    using handle_ok_manifest[of j u d "proc p"
        "st\<lparr>polled := polled st @ [statusUrl j st], now := now st + latency p\<rparr>"] Ok
    by (auto simp add: iteration_def wait_def poll_once_def Let_def)
next
  case (HttpError code)
  then have "poll_failed p" by (simp add: poll_failed_def)
  then show ?thesis by (simp add: failed_poll_store)
next
  case (Throws msg)
  then have "poll_failed p" by (simp add: poll_failed_def)
  then show ?thesis by (simp add: failed_poll_store)
qed

lemma poll_loop_manifest:
  assumes "all_cached st" and "list_all long_pages ps" and "poll_loop j u ps st = Some st'"
  shows "all_cached st'
       \<and> (urlMap (st_store st') = urlMap (st_store st)
          \<or> urlMap (st_store st') = (urlMap (st_store st))(u \<mapsto> sentUrls st'))"
  using assms
proof (induction ps arbitrary: st)
  case Nil
  then show ?case by (simp split: if_splits)
next
  case (Cons p ps)
  show ?case
  proof (cases "loop_cond st")
    case False
    with Cons.prems show ?thesis by simp
  next
    case True
    let ?st1 = "iteration j u p st"
    from Cons.prems have c1: "all_cached ?st1" by (intro iteration_cached) simp_all
    from Cons.prems True have l: "poll_loop j u ps ?st1 = Some st'" by simp
    from Cons.prems have lp: "list_all long_pages ps" by simp
    show ?thesis
    proof (cases "isComplete ?st1")
      case c: True
      then have "\<not> loop_cond ?st1" by (simp add: loop_cond_def)
      then have "poll_loop j u ps ?st1 = Some ?st1" by (rule poll_loop_done)
      with l have "st' = ?st1" by simp
      with c1 iteration_manifest[of j u p st] show ?thesis by auto
    next
      case c: False
      with iteration_manifest[of j u p st]
      have "urlMap (st_store ?st1) = urlMap (st_store st)" by auto
      with Cons.IH[OF c1 lp l] show ?thesis by simp
    qed
  qed
qed

lemma seed_store:
  "snd (POST_seed isValid body s) = s
   \<or> (\<exists>url ps. snd (POST_seed isValid body s)
         = setCrawlUrlMap s url (filter (\<lambda>x. cache_get s x \<noteq> None) ps))"
  by (auto simp add: POST_seed_def Let_def seed_filter_cached split: option.splits)

lemma seed_written_cached:
  assumes "getCrawlUrlMap (snd (POST_seed isValid body s)) k = Some us"
    and "getCrawlUrlMap s k \<noteq> Some us"
  shows "list_all (\<lambda>x. cache_get (snd (POST_seed isValid body s)) x \<noteq> None) us"
  using seed_store[of isValid body s] assms
  by (auto simp add: setCrawlUrlMap_def getCrawlUrlMap_def cache_get_def list_all_iff
      split: if_splits)

lemma initial_cached: "all_cached (initial s t0 job)"
  by (simp add: all_cached_def initial_def)

lemma stream_written_cached:
  assumes "list_all long_pages script" and "poll_stream j u script (initial s t0 job) = Some st'"
    and "stored_manifest k st' = Some us" and "getCrawlUrlMap s k \<noteq> Some us"
  shows "k = u \<and> us = sentUrls st' \<and> list_all (\<lambda>x. stored_page x st' \<noteq> None) us"
proof -
  from assms(2) obtain st1 where l: "poll_loop j u script (initial s t0 job) = Some st1"
    and f: "st' = finish st1"
    by (auto simp: poll_stream_def)
  from poll_loop_manifest[OF initial_cached assms(1) l]
  have c: "all_cached st1"
    and m: "urlMap (st_store st1) = urlMap s \<or> urlMap (st_store st1) = (urlMap s)(u \<mapsto> sentUrls st1)"
    by (simp_all add: initial_def)
  have v: "st_store st' = st_store st1" "sentUrls st' = sentUrls st1"
    by (simp_all add: f finish_def emit_def)
  from m assms(3,4) have "k = u \<and> us = sentUrls st1"
    by (auto simp add: stored_manifest_def getCrawlUrlMap_def v split: if_splits)
  with c show ?thesis
    by (simp add: v all_cached_def stored_page_def)
qed

text \<open>
  C3, as amended. Every URL in a manifest that the seed endpoint writes is, at the time
  of the write, in the tiered cache. The reconciler's completion step writes the
  stream's seen-set under the job's start URL, without a verification step of its own;
  every URL of that list is in the cache at the time of the write provided every page
  received during the stream carried content of at least \<open>MIN_CONTENT_LENGTH\<close>
  characters. A manifest entry counts as written when it differs from what the store
  held before.
\<close>

theorem C3_manifest_writes:
  "(\<forall>k us. getCrawlUrlMap (snd (POST_seed isValid body s)) k = Some us
            \<and> getCrawlUrlMap s k \<noteq> Some us
        \<longrightarrow> list_all (\<lambda>x. cache_get (snd (POST_seed isValid body s)) x \<noteq> None) us)
   \<and> (list_all long_pages script \<and> poll_stream j u script (initial s t0 job) = Some st'
        \<longrightarrow> (\<forall>k us. stored_manifest k st' = Some us \<and> getCrawlUrlMap s k \<noteq> Some us
              \<longrightarrow> k = u \<and> us = sentUrls st'
                  \<and> list_all (\<lambda>x. stored_page x st' \<noteq> None) us))"
  using seed_written_cached stream_written_cached by blast

text \<open>A stream whose single poll reports the crawl completed and brings one page.\<close>

lemma completed_closes:
  assumes "result p = Ok d" and "d_status d = ''completed''" and "loop_cond st"
  shows "poll_stream j u (p # ps) st = Some (poll_once j u p st)"
proof -
  have "isComplete (poll_once j u p st)"
    using assms(1,2)
    by (simp add: poll_once_def handle_ok_def check_completion_def crawl_complete_def Let_def)
  with assms(3) show ?thesis by (intro stream_closes)
qed

lemma one_page_stream:
  "poll_stream ''job-2'' ''https://docs.example.com/'' [completed_poll c] (initial live_store 5000 live_job)
     = Some (poll_once ''job-2'' ''https://docs.example.com/'' (completed_poll c)
               (initial live_store 5000 live_job))"
  by (rule completed_closes[where d = "\<lparr>d_status = ''completed'', d_completed = Some 1, d_total = Some 1,
                    d_creditsUsed = Some 1, d_expiresAt = None, d_next = None,
                    d_data = Some [\<lparr>sourceURL = Some ''https://docs.example.com/a'',
                                     markdown = Some c\<rparr>]\<rparr>"])
    (simp_all add: completed_poll_def loop_cond_def initial_def maxPollingTime_def)

lemma process_data_one_page:
  assumes "d_data d = Some [\<lparr>sourceURL = Some a, markdown = m\<rparr>]" and "a \<noteq> []"
    and "sentUrls st = []" and "cache (st_store st) a = None"
  shows "sentUrls (process_data j d st) = [a]"
    and "cache (st_store (process_data j d st)) a =
           (if MIN_CONTENT_LENGTH \<le> length (or_empty m) then Some (or_empty m) else None)"
  using assms
  by (simp_all add: process_data_def process_page_def emit_def cache_get_def cache_set_def
      setCrawlResults_def Let_def)

lemma completed_poll_writes:
  assumes "result p = Ok d" and "d_status d = ''completed''"
    and "d_data d = Some [\<lparr>sourceURL = Some a, markdown = m\<rparr>]" and "a \<noteq> []"
    and "sentUrls st = []" and "cache (st_store st) a = None"
  shows "stored_manifest u (poll_once j u p st) = Some [a]"
    and "stored_page a (poll_once j u p st) =
           (if MIN_CONTENT_LENGTH \<le> length (or_empty m) then Some (or_empty m) else None)"
proof -
  let ?st0 = "st\<lparr>polled := polled st @ [statusUrl j st], now := now st + latency p\<rparr>"
  let ?st1 = "publish_progress j d (record_progress d ?st0)"
  have a: "sentUrls ?st1 = []" "cache (st_store ?st1) a = None"
    using assms(5,6) by simp_all
  note pd = process_data_one_page[OF assms(3,4) a, of j]
  have c: "check_completion j u d x = mark_completed j u d x" for x
    using assms(2) by (simp add: check_completion_def crawl_complete_def)
  show "stored_manifest u (poll_once j u p st) = Some [a]"
    using assms(1) pd(1)
    by (simp add: stored_manifest_def getCrawlUrlMap_def poll_once_def handle_ok_def c Let_def)
  show "stored_page a (poll_once j u p st) =
           (if MIN_CONTENT_LENGTH \<le> length (or_empty m) then Some (or_empty m) else None)"
    using assms(1) pd(2)
    by (simp add: stored_page_def cache_get_def poll_once_def handle_ok_def c Let_def)
qed

lemma live_job_found:
  "getCrawlJob live_store ''job-2'' = Some live_job"
  "j_url live_job = ''https://docs.example.com/''"
  "j_status live_job = ''crawling''"
  by (simp_all add: live_store_def live_job_def getCrawlJob_def)

lemma completed_poll_fields:
  "result (completed_poll c) = Ok \<lparr>d_status = ''completed'', d_completed = Some 1, d_total = Some 1,
                    d_creditsUsed = Some 1, d_expiresAt = None, d_next = None,
                    d_data = Some [\<lparr>sourceURL = Some ''https://docs.example.com/a'',
                                     markdown = Some c\<rparr>]\<rparr>"
  by (simp add: completed_poll_def)

lemma one_page_written:
  "stored_manifest ''https://docs.example.com/''
     (poll_once ''job-2'' ''https://docs.example.com/'' (completed_poll c)
        (initial live_store 5000 live_job)) = Some [''https://docs.example.com/a'']"
  "stored_page ''https://docs.example.com/a''
     (poll_once ''job-2'' ''https://docs.example.com/'' (completed_poll c)
        (initial live_store 5000 live_job))
     = (if MIN_CONTENT_LENGTH \<le> length c then Some c else None)"
  using completed_poll_writes[OF completed_poll_fields, where a = "''https://docs.example.com/a''"
      and m = "Some c" and st = "initial live_store 5000 live_job"
      and u = "''https://docs.example.com/''" and j = "''job-2''"]
  by (simp_all add: initial_def live_store_def or_empty_def)

theorem C3_manifest_writes_witness:
  "list_all (\<lambda>x. cache_get (snd (POST_seed docs_only
        (seed_body [''https://docs.example.com/a'', ''https://docs.example.com/z'']) hit_store)) x \<noteq> None)
      [''https://docs.example.com/a'']
   \<and> [''https://docs.example.com/a'']
       = sentUrls (poll_once ''job-2'' ''https://docs.example.com/'' (completed_poll long_content)
                    (initial live_store 5000 live_job))
   \<and> list_all (\<lambda>x. stored_page x
          (poll_once ''job-2'' ''https://docs.example.com/'' (completed_poll long_content)
             (initial live_store 5000 live_job)) \<noteq> None)
       [''https://docs.example.com/a'']"
proof -
  have a: "getCrawlUrlMap (snd (POST_seed docs_only
        (seed_body [''https://docs.example.com/a'', ''https://docs.example.com/z'']) hit_store))
        ''https://docs.example.com/'' = Some [''https://docs.example.com/a'']"
    "getCrawlUrlMap hit_store ''https://docs.example.com/'' \<noteq> Some [''https://docs.example.com/a'']"
    by (simp_all add: POST_seed_def seed_body_def docs_only_def hit_store_def mget_def
        setCrawlUrlMap_def getCrawlUrlMap_def)
  have b: "list_all long_pages [completed_poll long_content]"
    by (simp add: long_pages_def completed_poll_def or_empty_def long_content_def
        MIN_CONTENT_LENGTH_def)
  have c: "getCrawlUrlMap live_store ''https://docs.example.com/'' \<noteq> Some [''https://docs.example.com/a'']"
    by (simp add: live_store_def getCrawlUrlMap_def)
  show ?thesis
    using C3_manifest_writes[of docs_only
        "seed_body [''https://docs.example.com/a'', ''https://docs.example.com/z'']" hit_store
        "[]" "''job-2''" "''https://docs.example.com/''" 0 live_job "live_stream 0"] a
      C3_manifest_writes[of docs_only "seed_body []" live_store
        "[completed_poll long_content]" "''job-2''" "''https://docs.example.com/''" 5000 live_job
        "poll_once ''job-2'' ''https://docs.example.com/'' (completed_poll long_content)
           (initial live_store 5000 live_job)"] b c
      one_page_stream[of long_content] one_page_written(1)[of long_content]
    by blast
qed

text \<open>
  C3 as stated fails for the reconciler: the provider reports the crawl completed with
  one page whose content is shorter than \<open>MIN_CONTENT_LENGTH\<close> and which was not
  cached; the page's URL is written to the manifest and is not in the cache.
\<close>

theorem C3_short_page_counterexample:
  "map_option (stored_manifest ''https://docs.example.com/'')
     (streamed (GET (Some ''fc-key'') live_store 5000 ''job-2'' [completed_poll ''# A'']))
     = Some (Some [''https://docs.example.com/a''])
   \<and> map_option (stored_page ''https://docs.example.com/a'')
     (streamed (GET (Some ''fc-key'') live_store 5000 ''job-2'' [completed_poll ''# A'']))
     = Some None"
proof -
  have "GET (Some ''fc-key'') live_store 5000 ''job-2'' [completed_poll ''# A'']
      = Some (Streamed (poll_once ''job-2'' ''https://docs.example.com/'' (completed_poll ''# A'')
                (initial live_store 5000 live_job)))"
    by (simp add: GET_def truthy_str_def live_job_found start_stream_def one_page_stream)
  then show ?thesis
    by (simp add: streamed_def one_page_written MIN_CONTENT_LENGTH_def
        del: map_option_eq_Some)
qed

subsection \<open>Successful polls: progress, stall and completion\<close>

lemma record_progress_fields [simp]:
  "now (record_progress d st) = now st"
  "startTime (record_progress d st) = startTime st"
  "events (record_progress d st) = events st"
  "lastCompletedCount (record_progress d st) =
     (if truthy_num (d_completed d) \<and> lastCompletedCount st < or0 (d_completed d)
      then or0 (d_completed d) else lastCompletedCount st)"
  "lastProgressUpdate (record_progress d st) =
     (if truthy_num (d_completed d) \<and> lastCompletedCount st < or0 (d_completed d)
      then now st else lastProgressUpdate st)"
  by (simp_all add: record_progress_def Let_def)

lemma publish_progress_fields [simp]:
  "now (publish_progress j d st) = now st"
  "startTime (publish_progress j d st) = startTime st"
  "lastCompletedCount (publish_progress j d st) = lastCompletedCount st"
  "lastProgressUpdate (publish_progress j d st) = lastProgressUpdate st"
  by (simp_all add: publish_progress_def emit_def)

lemma process_data_fields [simp]:
  "now (process_data j d st) = now st"
  "startTime (process_data j d st) = startTime st"
  "lastCompletedCount (process_data j d st) = lastCompletedCount st"
  "lastProgressUpdate (process_data j d st) = lastProgressUpdate st"
  by (simp_all add: process_data_def Let_def split: option.splits)

lemma job_kept:
  "getCrawlJob (updateCrawlJobStatus s j f) j = map_option f (getCrawlJob s j)"
  by (simp add: updateCrawlJobStatus_def getCrawlJob_def split: option.splits)

lemma job_present_before_test:
  "getCrawlJob (st_store (process_data j d (publish_progress j d (record_progress d st)))) j
     = map_option (updatedMetadata d (lastPageNumber st)) (getCrawlJob (st_store st) j)"
proof -
  have "jobs (st_store (process_data j d x)) = jobs (st_store x)" for x
    by (simp add: process_data_def setCrawlResults_def Let_def split: option.splits)
  then show ?thesis
    by (simp add: getCrawlJob_def publish_progress_def emit_def updateCrawlJobStatus_def
        record_progress_def Let_def split: option.splits)
qed

lemma mark_completed_status:
  "stored_status j (mark_completed j u d st)
     = map_option (\<lambda>x. ''completed'') (getCrawlJob (st_store st) j)"
  by (simp add: stored_status_def mark_completed_def emit_def setCrawlUrlMap_def
      updateCrawlJobStatus_def getCrawlJob_def Let_def split: option.splits)

lemma mark_completed_events:
  "events (mark_completed j u d st) = events st @ [CompleteMsg (or0 (d_total d)) (or0 (d_creditsUsed d))]"
  by (simp add: mark_completed_def emit_def Let_def)

lemma handle_ok_completes:
  assumes "crawl_complete d
      (if truthy_num (d_completed d) \<and> lastCompletedCount st < or0 (d_completed d)
       then or0 (d_completed d) else lastCompletedCount st)
      (now st + pt - (if truthy_num (d_completed d) \<and> lastCompletedCount st < or0 (d_completed d)
                      then now st else lastProgressUpdate st))
      (now st + pt - startTime st)"
  shows "isComplete (handle_ok j u d pt st)"
    and "stored_status j (handle_ok j u d pt st)
           = map_option (\<lambda>x. ''completed'') (getCrawlJob (st_store st) j)"
    and "last (events (handle_ok j u d pt st))
           = CompleteMsg (or0 (d_total d)) (or0 (d_creditsUsed d))"
proof -
  let ?st1 = "process_data j d (publish_progress j d (record_progress d st))"
  let ?st2 = "?st1\<lparr>now := now st + pt\<rparr>"
  have c: "check_completion j u d ?st2 = mark_completed j u d ?st2"
    using assms by (simp add: check_completion_def Let_def)
  have h: "handle_ok j u d pt st = remember_next d (mark_completed j u d ?st2)"
    by (simp add: handle_ok_def Let_def c)
  show "isComplete (handle_ok j u d pt st)"
    by (simp add: h)
  have "stored_status j (handle_ok j u d pt st) = stored_status j (mark_completed j u d ?st2)"
    by (simp add: h stored_status_def)
  also have "\<dots> = map_option (\<lambda>x. ''completed'') (getCrawlJob (st_store ?st1) j)"
    by (simp add: mark_completed_status)
  also have "\<dots> = map_option (\<lambda>x. ''completed'') (getCrawlJob (st_store st) j)"
    by (simp add: job_present_before_test option.map_comp comp_def)
  finally show "stored_status j (handle_ok j u d pt st)
           = map_option (\<lambda>x. ''completed'') (getCrawlJob (st_store st) j)" .
  have "events (handle_ok j u d pt st) = events (mark_completed j u d ?st2)"
    by (simp add: h remember_next_def)
  then show "last (events (handle_ok j u d pt st))
           = CompleteMsg (or0 (d_total d)) (or0 (d_creditsUsed d))"
    by (simp add: mark_completed_events)
qed

lemma near_complete:
  assumes "d_completed d = Some c" and "d_total d = Some t" and "0 < t" and "95 * t \<le> 100 * c"
  shows "95 / 100 \<le> completionRatio d"
proof -
  from assms(3,4) have c: "0 < c" by (cases c) simp_all
  have "(95::rat) * of_nat t \<le> 100 * of_nat c"
    using assms(4) by (metis of_nat_le_iff of_nat_mult of_nat_numeral)
  then have "(95::rat) / 100 \<le> of_nat c / of_nat t"
    using assms(3) by (simp add: field_simps)
  then show ?thesis
    using assms(1,2,3) c by (simp add: completionRatio_def truthy_num_def or0_def)
qed

lemma counters_after_blocks [simp]:
  "consecutiveErrors (record_progress d st) = 0"
  "consecutiveErrors (publish_progress j d st) = consecutiveErrors st"
  "consecutiveErrors (process_data j d st) = consecutiveErrors st"
  "consecutiveErrors (check_completion j u d st) = consecutiveErrors st"
  "consecutiveErrors (remember_next d st) = consecutiveErrors st"
  by (simp_all add: record_progress_def publish_progress_def process_data_def
      check_completion_def remember_next_def mark_completed_def mark_failed_def emit_def
      Let_def split: option.splits)

lemma check_completion_fields [simp]:
  "now (check_completion j u d st) = now st"
  "lastCompletedCount (check_completion j u d st) = lastCompletedCount st"
  "lastProgressUpdate (check_completion j u d st) = lastProgressUpdate st"
  "isComplete (check_completion j u d st) =
     (crawl_complete d (lastCompletedCount st) (now st - lastProgressUpdate st)
        (now st - startTime st)
      \<or> d_status d = ''failed'' \<or> isComplete st)"
  by (simp_all add: check_completion_def mark_completed_def mark_failed_def emit_def Let_def)

lemma remember_next_fields [simp]:
  "now (remember_next d st) = now st"
  "lastCompletedCount (remember_next d st) = lastCompletedCount st"
  "lastProgressUpdate (remember_next d st) = lastProgressUpdate st"
  by (simp_all add: remember_next_def)

lemma ok_poll_fields:
  assumes "result p = Ok d"
  shows "lastCompletedCount (poll_once j u p st) =
           (if truthy_num (d_completed d) \<and> lastCompletedCount st < or0 (d_completed d)
            then or0 (d_completed d) else lastCompletedCount st)"
    and "lastProgressUpdate (poll_once j u p st) =
           (if truthy_num (d_completed d) \<and> lastCompletedCount st < or0 (d_completed d)
            then now st + latency p else lastProgressUpdate st)"
    and "isComplete (poll_once j u p st) =
           (crawl_complete d
              (if truthy_num (d_completed d) \<and> lastCompletedCount st < or0 (d_completed d)
               then or0 (d_completed d) else lastCompletedCount st)
              (now st + latency p + proc p -
                 (if truthy_num (d_completed d) \<and> lastCompletedCount st < or0 (d_completed d)
                  then now st + latency p else lastProgressUpdate st))
              (now st + latency p + proc p - startTime st)
            \<or> d_status d = ''failed'' \<or> isComplete st)"
    and "consecutiveErrors (poll_once j u p st) = 0"
  using assms by (simp_all add: poll_once_def handle_ok_def Let_def)

lemma ok_iteration_fields:
  assumes "result p = Ok d"
  shows "lastCompletedCount (iteration j u p st) = lastCompletedCount (poll_once j u p st)"
    and "lastProgressUpdate (iteration j u p st) = lastProgressUpdate (poll_once j u p st)"
    and "now (iteration j u p st) =
           (if isComplete (poll_once j u p st) then now st + latency p + proc p
            else now st + latency p + proc p + pollInterval + overrun p)"
  using assms ok_poll_fields(4)[OF assms, of j u st]
  by (simp_all add: iteration_def wait_def delay_def poll_once_time)

lemma update_keeps_jobs [simp]:
  "(getCrawlJob (updateCrawlJobStatus s i f) j = None) = (getCrawlJob s j = None)"
  "getCrawlJob (setCrawlResults s i n pgs) j = getCrawlJob s j"
  "getCrawlJob (setCrawlUrlMap s u us) j = getCrawlJob s j"
  by (simp_all add: updateCrawlJobStatus_def setCrawlResults_def setCrawlUrlMap_def
      getCrawlJob_def split: option.splits)

lemma pages_keep_jobs [simp]:
  "job_known j (process_pages pgs st) = job_known j st"
  by (simp add: job_known_def getCrawlJob_def)

lemma blocks_keep_jobs [simp]:
  "job_known j (record_progress d st) = job_known j st"
  "job_known j (publish_progress i d st) = job_known j st"
  "job_known j (process_data i d st) = job_known j st"
  "job_known j (check_completion i u d st) = job_known j st"
  "job_known j (remember_next d st) = job_known j st"
proof -
  show "job_known j (record_progress d st) = job_known j st"
    by (simp add: job_known_def)
  show "job_known j (publish_progress i d st) = job_known j st"
    unfolding job_known_def publish_progress_def emit_def
    by (simp del: not_None_eq)
  have "jobs (st_store (process_data i d st)) = jobs (st_store st)"
    by (simp add: process_data_def setCrawlResults_def Let_def split: option.splits)
  then show "job_known j (process_data i d st) = job_known j st"
    by (simp add: job_known_def getCrawlJob_def)
  show "job_known j (check_completion i u d st) = job_known j st"
    unfolding job_known_def check_completion_def mark_completed_def mark_failed_def emit_def Let_def
    by (simp del: not_None_eq)
  show "job_known j (remember_next d st) = job_known j st"
    by (simp add: job_known_def)
qed

lemma jobs_kept: "job_known j (iteration i u p st) = job_known j st"
proof (cases "result p")
  case (Ok d)
  have "job_known j (x\<lparr>now := t\<rparr>) = job_known j x" for x t
    by (simp add: job_known_def)
  moreover have "job_known j (st\<lparr>polled := q, now := t\<rparr>) = job_known j st" for q t
    by (simp add: job_known_def)
  moreover have "job_known j (iteration i u p st) = job_known j (poll_once i u p st)"
    by (simp add: job_known_def iteration_def wait_def)
  ultimately show ?thesis
    using Ok by (simp add: poll_once_def handle_ok_def Let_def)
next
  case (HttpError code)
  then have "poll_failed p" by (simp add: poll_failed_def)
  then show ?thesis by (simp add: job_known_def failed_poll_store)
next
  case (Throws msg)
  then have "poll_failed p" by (simp add: poll_failed_def)
  then show ?thesis by (simp add: job_known_def failed_poll_store)
qed

text \<open>
  C5, as amended. While a live job is polled, a successful poll response that reports a
  completion ratio of at least 0.95, a completed count no higher than the last one
  recorded and no next cursor, and whose completion test runs more than the 60-second
  stall window after the last recorded progress, makes the reconciler mark the stored
  job completed and emit the complete event in that same iteration, after which the
  stream is closed; the completion happens when that poll's response has been received
  and processed. When the preceding iteration's poll was successful too and its
  completion test ran no later than the end of the stall window, the completion comes
  no later than one poll interval (2 seconds), the timer's overrun and the completing
  poll's latency and processing time after the end of the stall window.
\<close>

theorem C5_stall_completion:
  assumes "result p = Ok d" and "\<not> truthy_str (d_next d)"
    and "d_completed d = Some c" and "d_total d = Some t" and "0 < t" and "95 * t \<le> 100 * c"
    and "c \<le> lastCompletedCount st"
    and "maxStallTime < now st + latency p + proc p - lastProgressUpdate st"
    and "loop_cond st" and "job_known j st"
  shows "poll_stream j u (p # ps) st = Some (poll_once j u p st)
       \<and> now (poll_once j u p st) = now st + latency p + proc p
       \<and> stored_status j (poll_once j u p st) = Some ''completed''
       \<and> last (events (poll_once j u p st)) = CompleteMsg t (or0 (d_creditsUsed d))
       \<and> (st = iteration j u q st0 \<and> result q = Ok d0
            \<and> now st0 + latency q + proc q \<le> lastProgressUpdate st + maxStallTime \<longrightarrow>
          now (poll_once j u p st)
            \<le> lastProgressUpdate st + maxStallTime + (pollInterval + overrun q)
                + (latency p + proc p))"
proof -
  let ?st0 = "st\<lparr>polled := polled st @ [statusUrl j st], now := now st + latency p\<rparr>"
  have p: "poll_once j u p st = handle_ok j u d (proc p) ?st0"
    using assms(1) by (simp add: poll_once_def Let_def)
  have r: "95 / 100 \<le> completionRatio d"
    using assms(3-6) by (rule near_complete)
  have "crawl_complete d (lastCompletedCount st)
          (now st + latency p + proc p - lastProgressUpdate st)
          (now st + latency p + proc p - startTime st)"
    using assms(2,8) r by (simp add: crawl_complete_def)
  then have cc: "crawl_complete d
      (if truthy_num (d_completed d) \<and> lastCompletedCount ?st0 < or0 (d_completed d)
       then or0 (d_completed d) else lastCompletedCount ?st0)
      (now ?st0 + proc p - (if truthy_num (d_completed d) \<and> lastCompletedCount ?st0 < or0 (d_completed d)
                      then now ?st0 else lastProgressUpdate ?st0))
      (now ?st0 + proc p - startTime ?st0)"
    using assms(3,7) by (simp add: or0_def)
  note h = handle_ok_completes[OF cc, of j u]
  from h(1) have "isComplete (poll_once j u p st)" by (simp add: p)
  with assms(9) have "poll_stream j u (p # ps) st = Some (poll_once j u p st)"
    by (intro stream_closes)
  moreover have "now (poll_once j u p st) = now st + latency p + proc p"
    using assms(1) by (simp add: poll_once_time)
  moreover have "stored_status j (poll_once j u p st) = Some ''completed''"
    using h(2) assms(10) by (auto simp add: p job_known_def)
  moreover have "last (events (poll_once j u p st)) = CompleteMsg t (or0 (d_creditsUsed d))"
    using h(3) assms(4) by (simp add: p or0_def)
  moreover have "now (poll_once j u p st)
            \<le> lastProgressUpdate st + maxStallTime + (pollInterval + overrun q)
                + (latency p + proc p)"
    if b: "st = iteration j u q st0 \<and> result q = Ok d0
            \<and> now st0 + latency q + proc q \<le> lastProgressUpdate st + maxStallTime"
  proof -
    from b have q: "result q = Ok d0" and e: "st = iteration j u q st0" by blast+
    from assms(9) have "\<not> isComplete (iteration j u q st0)"
      by (simp add: loop_cond_def e)
    then have "now (iteration j u q st0) = now st0 + latency q + proc q + pollInterval + overrun q"
      by (simp add: ok_iteration_fields(3)[OF q])
    then have n1: "now st = now st0 + latency q + proc q + pollInterval + overrun q"
      by (simp only: e)
    have n2: "now (poll_once j u p st) = now st + latency p + proc p"
      using assms(1) by (simp add: poll_once_time)
    from b have "now st0 + latency q + proc q \<le> lastProgressUpdate st + maxStallTime"
      by blast
    with n1 n2 show ?thesis by linarith
  qed
  ultimately show ?thesis by blast
qed

text \<open>Three polls answered after 20 seconds each, the first of them recording progress.\<close>

lemma scraping_poll_fields [simp]:
  "result (scraping_poll lat c t) =
     Ok \<lparr>d_status = ''scraping'', d_completed = Some c, d_total = Some t,
         d_creditsUsed = Some c, d_expiresAt = None, d_next = None, d_data = None\<rparr>"
  "latency (scraping_poll lat c t) = lat"
  "proc (scraping_poll lat c t) = 0"
  "overrun (scraping_poll lat c t) = 0"
  by (simp_all add: scraping_poll_def)

lemma initial_fields [simp]:
  "now (initial s t0 job) = t0"
  "startTime (initial s t0 job) = t0"
  "lastProgressUpdate (initial s t0 job) = t0"
  "lastCompletedCount (initial s t0 job) = 0"
  "isComplete (initial s t0 job) = False"
  "st_store (initial s t0 job) = s"
  "events (initial s t0 job) = []"
  by (simp_all add: initial_def)

lemma ratio_96: "completionRatio \<lparr>d_status = ''scraping'', d_completed = Some 96, d_total = Some 100,
         d_creditsUsed = Some 96, d_expiresAt = None, d_next = None, d_data = None\<rparr> = 96 / 100"
  by (simp add: completionRatio_def truthy_num_def or0_def)

lemma first_stalled_poll:
  fixes st1
  defines "st1 \<equiv> iteration ''job-2'' ''https://docs.example.com/'' (scraping_poll 20000 96 100)
             (initial live_store 5000 live_job)"
  shows "isComplete st1 = False" and "now st1 = 27000" and "lastProgressUpdate st1 = 25000"
    and "lastCompletedCount st1 = 96" and "startTime st1 = 5000"
proof -
  have c: "isComplete (poll_once ''job-2'' ''https://docs.example.com/'' (scraping_poll 20000 96 100)
             (initial live_store 5000 live_job)) = False"
    by (simp add: ok_poll_fields(3)[OF scraping_poll_fields(1)] crawl_complete_def
        truthy_num_def or0_def truthy_str_def maxStallTime_def absoluteMaxStallTime_def ratio_96)
  then show "isComplete st1 = False"
    by (simp add: st1_def)
  show "now st1 = 27000"
    using c by (simp add: st1_def ok_iteration_fields(3)[OF scraping_poll_fields(1)] pollInterval_def)
  show "lastProgressUpdate st1 = 25000"
    by (simp add: st1_def ok_iteration_fields(2)[OF scraping_poll_fields(1)]
        ok_poll_fields(2)[OF scraping_poll_fields(1)] truthy_num_def or0_def)
  show "lastCompletedCount st1 = 96"
    by (simp add: st1_def ok_iteration_fields(1)[OF scraping_poll_fields(1)]
        ok_poll_fields(1)[OF scraping_poll_fields(1)] truthy_num_def or0_def)
  show "startTime st1 = 5000"
    by (simp add: st1_def)
qed

lemma next_stalled_poll:
  assumes "isComplete st = False" and "lastCompletedCount st = 96" and "startTime st = 5000"
    and "now st + 20000 - lastProgressUpdate st \<le> 60000" and "now st + 20000 \<le> 485000"
  shows "isComplete (iteration j u (scraping_poll 20000 96 100) st) = False"
    and "now (iteration j u (scraping_poll 20000 96 100) st) = now st + 22000"
    and "lastProgressUpdate (iteration j u (scraping_poll 20000 96 100) st) = lastProgressUpdate st"
    and "lastCompletedCount (iteration j u (scraping_poll 20000 96 100) st) = 96"
    and "startTime (iteration j u (scraping_poll 20000 96 100) st) = 5000"
proof -
  have c: "isComplete (poll_once j u (scraping_poll 20000 96 100) st) = False"
    using assms
    by (simp add: ok_poll_fields(3)[OF scraping_poll_fields(1)] crawl_complete_def
        truthy_num_def or0_def truthy_str_def maxStallTime_def absoluteMaxStallTime_def ratio_96)
  then show "isComplete (iteration j u (scraping_poll 20000 96 100) st) = False"
    by simp
  show "now (iteration j u (scraping_poll 20000 96 100) st) = now st + 22000"
    using c by (simp add: ok_iteration_fields(3)[OF scraping_poll_fields(1)] pollInterval_def)
  show "lastProgressUpdate (iteration j u (scraping_poll 20000 96 100) st) = lastProgressUpdate st"
    using assms(2)
    by (simp add: ok_iteration_fields(2)[OF scraping_poll_fields(1)]
        ok_poll_fields(2)[OF scraping_poll_fields(1)] truthy_num_def or0_def)
  show "lastCompletedCount (iteration j u (scraping_poll 20000 96 100) st) = 96"
    using assms(2)
    by (simp add: ok_iteration_fields(1)[OF scraping_poll_fields(1)]
        ok_poll_fields(1)[OF scraping_poll_fields(1)] truthy_num_def or0_def)
  show "startTime (iteration j u (scraping_poll 20000 96 100) st) = 5000"
    using assms(3) by simp
qed

lemma stalled_stream_fields:
  "isComplete stalled_stream = False" "now stalled_stream = 71000"
  "lastProgressUpdate stalled_stream = 25000" "lastCompletedCount stalled_stream = 96"
  "startTime stalled_stream = 5000" "loop_cond stalled_stream"
  "job_known ''job-2'' stalled_stream"
proof -
  note a = first_stalled_poll
  note b = next_stalled_poll[where j = "''job-2''" and u = "''https://docs.example.com/''",
      OF a(1) a(4) a(5), unfolded a(2) a(3)]
  have b1: "(27000::nat) + 20000 - 25000 \<le> 60000" "(27000::nat) + 20000 \<le> 485000" by simp_all
  note b = b[OF b1]
  note c = next_stalled_poll[where j = "''job-2''" and u = "''https://docs.example.com/''",
      OF b(1) b(4) b(5), unfolded b(2) b(3)]
  have c1: "(27000::nat) + 22000 + 20000 - 25000 \<le> 60000" "(27000::nat) + 22000 + 20000 \<le> 485000"
    by simp_all
  note c = c[OF c1]
  show "isComplete stalled_stream = False" using c(1) by (simp add: stalled_stream_def)
  show "now stalled_stream = 71000" using c(2) by (simp add: stalled_stream_def)
  show "lastProgressUpdate stalled_stream = 25000" using c(3) by (simp add: stalled_stream_def)
  show "lastCompletedCount stalled_stream = 96" using c(4) by (simp add: stalled_stream_def)
  show "startTime stalled_stream = 5000" using c(5) by (simp add: stalled_stream_def)
  show "loop_cond stalled_stream"
    using c(1,2,5) by (simp add: stalled_stream_def loop_cond_def maxPollingTime_def)
  have "job_known ''job-2'' (initial live_store 5000 live_job)"
    by (simp add: job_known_def live_store_def getCrawlJob_def)
  then show "job_known ''job-2'' stalled_stream"
    by (simp add: stalled_stream_def jobs_kept)
qed

lemma stalled_run:
  "poll_loop ''job-2'' ''https://docs.example.com/''
     (scraping_poll 20000 96 100 # scraping_poll 20000 96 100 # scraping_poll 20000 96 100 # rest)
     (initial live_store 5000 live_job)
   = poll_loop ''job-2'' ''https://docs.example.com/'' rest stalled_stream"
proof -
  note a = first_stalled_poll
  note b = next_stalled_poll[where j = "''job-2''" and u = "''https://docs.example.com/''",
      OF a(1) a(4) a(5), unfolded a(2) a(3)]
  have b1: "(27000::nat) + 20000 - 25000 \<le> 60000" "(27000::nat) + 20000 \<le> 485000" by simp_all
  note b = b[OF b1]
  have l0: "loop_cond (initial live_store 5000 live_job)"
    by (simp add: loop_cond_def maxPollingTime_def)
  have l1: "loop_cond (iteration ''job-2'' ''https://docs.example.com/'' (scraping_poll 20000 96 100)
             (initial live_store 5000 live_job))"
    using a(1,2,5) by (simp add: loop_cond_def maxPollingTime_def)
  have l2: "loop_cond (iteration ''job-2'' ''https://docs.example.com/'' (scraping_poll 20000 96 100)
             (iteration ''job-2'' ''https://docs.example.com/'' (scraping_poll 20000 96 100)
             (initial live_store 5000 live_job)))"
    using b(1,2,5) by (simp add: loop_cond_def maxPollingTime_def)
  show ?thesis
    by (simp add: l0 l1 l2 stalled_stream_def)
qed

lemma second_stalled_poll:
  "now (iteration ''job-2'' ''https://docs.example.com/'' (scraping_poll 20000 96 100)
          (iteration ''job-2'' ''https://docs.example.com/'' (scraping_poll 20000 96 100)
             (initial live_store 5000 live_job))) = 49000"
proof -
  note a = first_stalled_poll
  note b = next_stalled_poll[where j = "''job-2''" and u = "''https://docs.example.com/''",
      OF a(1) a(4) a(5), unfolded a(2) a(3)]
  have b1: "(27000::nat) + 20000 - 25000 \<le> 60000" "(27000::nat) + 20000 \<le> 485000" by simp_all
  from b(2)[OF b1] show ?thesis by simp
qed

theorem C5_stall_completion_witness:
  "poll_stream ''job-2'' ''https://docs.example.com/'' [scraping_poll 20000 96 100] stalled_stream
     = Some (poll_once ''job-2'' ''https://docs.example.com/'' (scraping_poll 20000 96 100) stalled_stream)
   \<and> now (poll_once ''job-2'' ''https://docs.example.com/'' (scraping_poll 20000 96 100) stalled_stream)
       = 91000
   \<and> stored_status ''job-2''
        (poll_once ''job-2'' ''https://docs.example.com/'' (scraping_poll 20000 96 100) stalled_stream)
       = Some ''completed''
   \<and> last (events
        (poll_once ''job-2'' ''https://docs.example.com/'' (scraping_poll 20000 96 100) stalled_stream))
       = CompleteMsg 100 96
   \<and> now (poll_once ''job-2'' ''https://docs.example.com/'' (scraping_poll 20000 96 100) stalled_stream)
       \<le> 25000 + maxStallTime + (pollInterval + 0) + (20000 + 0)"
proof -
  let ?p = "scraping_poll 20000 96 100"
  let ?d = "\<lparr>d_status = ''scraping'', d_completed = Some 96, d_total = Some 100,
         d_creditsUsed = Some 96, d_expiresAt = None, d_next = None, d_data = None\<rparr>"
  let ?s2 = "iteration ''job-2'' ''https://docs.example.com/'' ?p
               (iteration ''job-2'' ''https://docs.example.com/'' ?p
                  (initial live_store 5000 live_job))"
  let ?st4 = "poll_once ''job-2'' ''https://docs.example.com/'' ?p stalled_stream"
  have e: "stalled_stream = iteration ''job-2'' ''https://docs.example.com/'' ?p ?s2"
    by (simp add: stalled_stream_def)
  have w: "now ?s2 + latency ?p + proc ?p \<le> lastProgressUpdate stalled_stream + maxStallTime"
    by (simp add: second_stalled_poll stalled_stream_fields maxStallTime_def)
  have t: "poll_stream ''job-2'' ''https://docs.example.com/'' [?p] stalled_stream = Some ?st4
       \<and> now ?st4 = now stalled_stream + latency ?p + proc ?p
       \<and> stored_status ''job-2'' ?st4 = Some ''completed''
       \<and> last (events ?st4) = CompleteMsg 100 (or0 (d_creditsUsed ?d))
       \<and> (stalled_stream = iteration ''job-2'' ''https://docs.example.com/'' ?p ?s2
            \<and> result ?p = Ok ?d
            \<and> now ?s2 + latency ?p + proc ?p \<le> lastProgressUpdate stalled_stream + maxStallTime \<longrightarrow>
          now ?st4
            \<le> lastProgressUpdate stalled_stream + maxStallTime + (pollInterval + overrun ?p)
                + (latency ?p + proc ?p))"
    by (rule C5_stall_completion[where c = 96])
      (simp_all add: truthy_str_def stalled_stream_fields maxStallTime_def)
  then have "now ?st4
            \<le> lastProgressUpdate stalled_stream + maxStallTime + (pollInterval + overrun ?p)
                + (latency ?p + proc ?p)"
    using e w scraping_poll_fields(1) by blast
  with t show ?thesis
    by (simp add: stalled_stream_fields or0_def)
qed

lemma fourth_stalled_poll:
  fixes st4
  defines "st4 \<equiv> poll_once ''job-2'' ''https://docs.example.com/'' (scraping_poll 20000 96 100)
             stalled_stream"
  shows "isComplete st4" and "now st4 = 91000" and "lastProgressUpdate st4 = 25000"
    and "stored_status ''job-2'' st4 = Some ''completed''"
proof -
  let ?d = "\<lparr>d_status = ''scraping'', d_completed = Some 96, d_total = Some 100,
         d_creditsUsed = Some 96, d_expiresAt = None, d_next = None, d_data = None\<rparr>"
  let ?st0 = "stalled_stream\<lparr>polled := polled stalled_stream @ [statusUrl ''job-2'' stalled_stream],
                now := now stalled_stream + 20000\<rparr>"
  have p: "st4 = handle_ok ''job-2'' ''https://docs.example.com/'' ?d 0 ?st0"
    by (simp add: st4_def poll_once_def Let_def)
  have cc: "crawl_complete ?d
      (if truthy_num (d_completed ?d) \<and> lastCompletedCount ?st0 < or0 (d_completed ?d)
       then or0 (d_completed ?d) else lastCompletedCount ?st0)
      (now ?st0 + 0 - (if truthy_num (d_completed ?d) \<and> lastCompletedCount ?st0 < or0 (d_completed ?d)
                      then now ?st0 else lastProgressUpdate ?st0))
      (now ?st0 + 0 - startTime ?st0)"
    by (simp add: stalled_stream_fields crawl_complete_def truthy_num_def or0_def truthy_str_def
        maxStallTime_def ratio_96)
  note h = handle_ok_completes[OF cc, of "''job-2''" "''https://docs.example.com/''"]
  show "isComplete st4" using h(1) by (simp add: p)
  show "now st4 = 91000"
    by (simp add: st4_def poll_once_time stalled_stream_fields)
  show "lastProgressUpdate st4 = 25000"
    by (simp add: st4_def ok_poll_fields(2)[OF scraping_poll_fields(1)] stalled_stream_fields
        truthy_num_def or0_def)
  have "getCrawlJob (st_store ?st0) ''job-2'' \<noteq> None"
    using stalled_stream_fields(7) by (simp add: job_known_def)
  then show "stored_status ''job-2'' st4 = Some ''completed''"
    using h(2) by (auto simp add: p)
qed

text \<open>
  C5 as stated fails: the provider answers each poll after 20 seconds with 96 of 100
  pages and no cursor. Progress is recorded at 25000 ms, so the stall window ends at
  85000 ms; after three polls the loop is still running, and the fourth poll marks the
  job completed at 91000 ms, 6 seconds after the window ended.
\<close>

theorem C5_slow_poll_counterexample:
  "GET (Some ''fc-key'') live_store 5000 ''job-2''
     [scraping_poll 20000 96 100, scraping_poll 20000 96 100, scraping_poll 20000 96 100] = None
   \<and> map_option lastProgressUpdate (streamed (GET (Some ''fc-key'') live_store 5000 ''job-2''
       [scraping_poll 20000 96 100, scraping_poll 20000 96 100, scraping_poll 20000 96 100,
        scraping_poll 20000 96 100])) = Some 25000
   \<and> map_option now (streamed (GET (Some ''fc-key'') live_store 5000 ''job-2''
       [scraping_poll 20000 96 100, scraping_poll 20000 96 100, scraping_poll 20000 96 100,
        scraping_poll 20000 96 100])) = Some 91000
   \<and> map_option (stored_status ''job-2'') (streamed (GET (Some ''fc-key'') live_store 5000 ''job-2''
       [scraping_poll 20000 96 100, scraping_poll 20000 96 100, scraping_poll 20000 96 100,
        scraping_poll 20000 96 100])) = Some (Some ''completed'')"
proof -
  have ge: "GET (Some ''fc-key'') live_store 5000 ''job-2'' script
      = map_option Streamed (poll_stream ''job-2'' ''https://docs.example.com/'' script
          (initial live_store 5000 live_job))" for script
    by (simp add: GET_def truthy_str_def live_job_found start_stream_def)
  have p3: "poll_stream ''job-2'' ''https://docs.example.com/''
       [scraping_poll 20000 96 100, scraping_poll 20000 96 100, scraping_poll 20000 96 100]
       (initial live_store 5000 live_job) = None"
    unfolding poll_stream_def stalled_run by (simp add: stalled_stream_fields(6))
  have "poll_stream ''job-2'' ''https://docs.example.com/'' [scraping_poll 20000 96 100] stalled_stream
     = Some (poll_once ''job-2'' ''https://docs.example.com/'' (scraping_poll 20000 96 100) stalled_stream)"
    using stalled_stream_fields(6) fourth_stalled_poll(1) by (rule stream_closes)
  then have p4: "poll_stream ''job-2'' ''https://docs.example.com/''
       [scraping_poll 20000 96 100, scraping_poll 20000 96 100, scraping_poll 20000 96 100,
        scraping_poll 20000 96 100] (initial live_store 5000 live_job)
     = Some (poll_once ''job-2'' ''https://docs.example.com/'' (scraping_poll 20000 96 100) stalled_stream)"
    unfolding poll_stream_def stalled_run .
  show ?thesis
    unfolding ge p3 p4
    by (simp add: streamed_def fourth_stalled_poll del: map_option_eq_Some)
qed

subsection \<open>The polling ceiling\<close>

lemma poll_loop_overrun:
  assumes "poll_loop j u ps st = Some st'" and "loop_cond st" and "\<not> isComplete st'"
  shows "\<exists>p \<in> set ps. now st' < startTime st + maxPollingTime + latency p + proc p + 30000 + overrun p"
  using assms
proof (induction ps arbitrary: st)
  case Nil
  then show ?case by simp
next
  case (Cons p ps)
  let ?st1 = "iteration j u p st"
  from Cons.prems have l: "poll_loop j u ps ?st1 = Some st'" by simp
  show ?case
  proof (cases "loop_cond ?st1")
    case True
    from Cons.IH[OF l True Cons.prems(3)] show ?thesis by auto
  next
    case False
    then have "poll_loop j u ps ?st1 = Some ?st1" by (rule poll_loop_done)
    with l have e: "st' = ?st1" by simp
    from Cons.prems(2) have "now st < startTime st + maxPollingTime"
      by (auto simp add: loop_cond_def maxPollingTime_def)
    with iteration_now_upper[of j u p st]
    have "now st' < startTime st + maxPollingTime + latency p + proc p + 30000 + overrun p"
      by (simp add: e)
    then show ?thesis by auto
  qed
qed

text \<open>
  C2, as amended. The loop tests the polling ceiling only at its head, between polls.
  When the loop ends with no poll having completed the stream (no completion predicate
  held, the provider reported no failure and no error threshold was reached), the
  stream emits the timeout error, closes, and the time elapsed since the stream started
  is then at least the ceiling of 8 minutes: the timeout is never early. It is later
  than the ceiling by less than the length of one loop iteration, that is one poll's
  latency and processing time, a delay of at most 30 seconds and the timer's overrun.
  The loop always ends: each iteration that goes on advances the clock by at least the
  poll interval, so 240 polls are enough.
\<close>

theorem C2_timeout_at_loop_check:
  "(poll_loop j u script st = Some st' \<and> \<not> isComplete st' \<longrightarrow>
      poll_stream j u script st = Some (emit (ErrorMsg ''Crawl job timed out after 8 minutes'') st')
    \<and> startTime st' = startTime st
    \<and> maxPollingTime \<le> now st' - startTime st
    \<and> (loop_cond st \<longrightarrow>
         (\<exists>p \<in> set script.
            now st' < startTime st + maxPollingTime + latency p + proc p + 30000 + overrun p)))
   \<and> (startTime st \<le> now st \<and> 240 \<le> length script \<longrightarrow> poll_stream j u script st \<noteq> None)"
proof (intro conjI impI)
  assume h: "poll_loop j u script st = Some st' \<and> \<not> isComplete st'"
  then have l: "poll_loop j u script st = Some st'" and n: "\<not> isComplete st'"
    by simp_all
  from l n show "poll_stream j u script st = Some (emit (ErrorMsg ''Crawl job timed out after 8 minutes'') st')"
    by (simp add: poll_stream_def finish_def)
  from l show s: "startTime st' = startTime st"
    by (rule poll_loop_startTime)
  from l have "\<not> loop_cond st'" by (rule poll_loop_exit)
  with n s show "maxPollingTime \<le> now st' - startTime st"
    by (simp add: loop_cond_def)
  assume "loop_cond st"
  with l n show "\<exists>p \<in> set script.
            now st' < startTime st + maxPollingTime + latency p + proc p + 30000 + overrun p"
    by (intro poll_loop_overrun)
next
  assume "startTime st \<le> now st \<and> 240 \<le> length script"
  then have a: "startTime st \<le> now st" and b: "240 \<le> length script"
    by simp_all
  from b have "maxPollingTime \<le> now st - startTime st + pollInterval * length script"
    by (simp add: maxPollingTime_def pollInterval_def)
  then have "poll_loop j u script st \<noteq> None"
    using a by (rule poll_loop_total)
  then show "poll_stream j u script st \<noteq> None"
    by (simp add: poll_stream_def)
qed

text \<open>Polls during which the provider reports no completed page.\<close>

lemma idle_iteration:
  assumes "isComplete st = False" and "t \<noteq> 0" and "now st + lat \<le> startTime st + 480000"
  shows "isComplete (iteration j u (scraping_poll lat 0 t) st) = False"
    and "now (iteration j u (scraping_poll lat 0 t) st) = now st + lat + 2000"
proof -
  have c: "isComplete (poll_once j u (scraping_poll lat 0 t) st) = False"
    using assms
    by (simp add: ok_poll_fields(3)[OF scraping_poll_fields(1)] crawl_complete_def
        completionRatio_def truthy_num_def or0_def truthy_str_def)
  then show "isComplete (iteration j u (scraping_poll lat 0 t) st) = False"
    by simp
  show "now (iteration j u (scraping_poll lat 0 t) st) = now st + lat + 2000"
    using c by (simp add: ok_iteration_fields(3)[OF scraping_poll_fields(1)] pollInterval_def)
qed

lemma idle_run:
  assumes "isComplete st = False" and "t \<noteq> 0" and "0 < lat"
    and "now st + n * (lat + 2000) \<le> startTime st + 482000"
  shows "poll_loop j u (replicate n (scraping_poll lat 0 t) @ rest) st
           = poll_loop j u rest (((iteration j u (scraping_poll lat 0 t)) ^^ n) st)
       \<and> isComplete (((iteration j u (scraping_poll lat 0 t)) ^^ n) st) = False
       \<and> now (((iteration j u (scraping_poll lat 0 t)) ^^ n) st) = now st + n * (lat + 2000)
       \<and> startTime (((iteration j u (scraping_poll lat 0 t)) ^^ n) st) = startTime st"
  using assms
proof (induction n arbitrary: st)
  case 0
  then show ?case by simp
next
  case (Suc n)
  let ?p = "scraping_poll lat 0 t"
  let ?st1 = "iteration j u ?p st"
  from Suc.prems have b: "now st + lat \<le> startTime st + 480000" by simp
  with Suc.prems have l: "loop_cond st"
    by (simp add: loop_cond_def maxPollingTime_def)
  note i = idle_iteration[OF Suc.prems(1,2) b, of j u]
  have "now ?st1 + n * (lat + 2000) \<le> startTime ?st1 + 482000"
    using Suc.prems(4) by (simp add: i(2))
  from Suc.IH[OF i(1) Suc.prems(2,3) this] l show ?case
    by (simp add: funpow_swap1 i(2))
qed

lemma live_initial:
  "isComplete (initial live_store 5000 live_job) = False"
  "now (initial live_store 5000 live_job) = 5000"
  "startTime (initial live_store 5000 live_job) = 5000"
  by simp_all

theorem C2_timeout_at_loop_check_witness:
  "poll_stream ''job-2'' ''https://docs.example.com/'' (replicate 16 (scraping_poll 28000 0 10))
      (initial live_store 5000 live_job)
     = Some (emit (ErrorMsg ''Crawl job timed out after 8 minutes'')
         (((iteration ''job-2'' ''https://docs.example.com/'' (scraping_poll 28000 0 10)) ^^ 16)
            (initial live_store 5000 live_job)))
   \<and> now (((iteration ''job-2'' ''https://docs.example.com/'' (scraping_poll 28000 0 10)) ^^ 16)
            (initial live_store 5000 live_job)) = 485000
   \<and> maxPollingTime
       \<le> now (((iteration ''job-2'' ''https://docs.example.com/'' (scraping_poll 28000 0 10)) ^^ 16)
            (initial live_store 5000 live_job)) - 5000"
proof -
  let ?p = "scraping_poll 28000 0 10"
  let ?s0 = "initial live_store 5000 live_job"
  let ?s16 = "((iteration ''job-2'' ''https://docs.example.com/'' ?p) ^^ 16) ?s0"
  have "now ?s0 + 16 * (28000 + 2000) \<le> startTime ?s0 + 482000" by simp
  note r = idle_run[where j = "''job-2''" and u = "''https://docs.example.com/''" and rest = "[]"
      and t = 10, OF live_initial(1) _ _ this]
  have a: "poll_loop ''job-2'' ''https://docs.example.com/'' (replicate 16 ?p) ?s0
             = poll_loop ''job-2'' ''https://docs.example.com/'' [] ?s16"
    and b: "isComplete ?s16 = False" and c: "now ?s16 = 485000" and d: "startTime ?s16 = 5000"
    using r by simp_all
  have "\<not> loop_cond ?s16"
    by (simp add: loop_cond_def b c d maxPollingTime_def)
  then have e: "poll_loop ''job-2'' ''https://docs.example.com/'' (replicate 16 ?p) ?s0 = Some ?s16"
    unfolding a by simp
  show ?thesis
    using C2_timeout_at_loop_check[of "''job-2''" "''https://docs.example.com/''"
        "replicate 16 ?p" ?s0 ?s16] e b c
    by simp
qed

text \<open>
  C2 as stated fails: the provider answers fifteen polls after 29 seconds each and a
  sixteenth after 14 seconds, always scraping with no page completed. No completion
  predicate ever holds; the sixteenth completion test runs at 479 seconds, and the
  timeout error is emitted at the next loop check, 481 seconds after the start.
\<close>

theorem C2_late_timeout_counterexample:
  "map_option startTime (streamed (GET (Some ''fc-key'') live_store 5000 ''job-2''
       (replicate 15 (scraping_poll 29000 0 10) @ [scraping_poll 14000 0 10]))) = Some 5000
   \<and> map_option now (streamed (GET (Some ''fc-key'') live_store 5000 ''job-2''
       (replicate 15 (scraping_poll 29000 0 10) @ [scraping_poll 14000 0 10]))) = Some 486000
   \<and> map_option (last \<circ> events) (streamed (GET (Some ''fc-key'') live_store 5000 ''job-2''
       (replicate 15 (scraping_poll 29000 0 10) @ [scraping_poll 14000 0 10])))
       = Some (ErrorMsg ''Crawl job timed out after 8 minutes'')"
proof -
  let ?p = "scraping_poll 29000 0 10"
  let ?q = "scraping_poll 14000 0 10"
  let ?s0 = "initial live_store 5000 live_job"
  let ?s15 = "((iteration ''job-2'' ''https://docs.example.com/'' ?p) ^^ 15) ?s0"
  let ?s16 = "iteration ''job-2'' ''https://docs.example.com/'' ?q ?s15"
  have "now ?s0 + 15 * (29000 + 2000) \<le> startTime ?s0 + 482000" by simp
  note r = idle_run[where j = "''job-2''" and u = "''https://docs.example.com/''" and rest = "[?q]"
      and t = 10, OF live_initial(1) _ _ this]
  have a: "poll_loop ''job-2'' ''https://docs.example.com/'' (replicate 15 ?p @ [?q]) ?s0
             = poll_loop ''job-2'' ''https://docs.example.com/'' [?q] ?s15"
    and b: "isComplete ?s15 = False" and c: "now ?s15 = 470000" and d: "startTime ?s15 = 5000"
    using r by simp_all
  have l: "loop_cond ?s15"
    by (simp add: loop_cond_def b c d maxPollingTime_def)
  have "now ?s15 + 14000 \<le> startTime ?s15 + 480000"
    by (simp add: c d)
  note i = idle_iteration[where j = "''job-2''" and u = "''https://docs.example.com/''" and t = 10,
      OF b _ this]
  have f: "isComplete ?s16 = False" and g: "now ?s16 = 486000" and h: "startTime ?s16 = 5000"
    using i by (simp_all add: c d)
  have "\<not> loop_cond ?s16"
    using f g h d by (simp add: loop_cond_def maxPollingTime_def)
  then have "poll_loop ''job-2'' ''https://docs.example.com/'' (replicate 15 ?p @ [?q]) ?s0 = Some ?s16"
    unfolding a using l by simp
  then have "poll_stream ''job-2'' ''https://docs.example.com/'' (replicate 15 ?p @ [?q]) ?s0
      = Some (emit (ErrorMsg ''Crawl job timed out after 8 minutes'') ?s16)"
    using f by (simp add: poll_stream_def finish_def)
  then have "GET (Some ''fc-key'') live_store 5000 ''job-2'' (replicate 15 ?p @ [?q])
      = Some (Streamed (emit (ErrorMsg ''Crawl job timed out after 8 minutes'') ?s16))"
    by (simp add: GET_def truthy_str_def live_job_found start_stream_def)
  then show ?thesis
    using g h d by (simp add: streamed_def emit_def)
qed

end
